theory Spec2Isabelle
  imports Complex_Main
begin

section \<open>Blink monitor: a shallow embedding of \<^verbatim>\<open>Untitled-1.ts\<close>\<close>

text \<open>
  The geometry of \<^verbatim>\<open>ear\<close> is modelled in IEEE 754 double precision, with rounding to
  nearest, overflow to the infinities and \<^verbatim>\<open>NaN\<close>. The rest of the page works on the
  finite scores that the geometry hands to it, and is modelled over exact reals:
  timestamps in milliseconds, eye aspect ratios and thresholds are \<^typ>\<open>real\<close>, frame and
  blink counters are \<^typ>\<open>nat\<close>.
\<close>

subsection \<open>Numbers\<close>

text \<open>
  A JavaScript number: a finite double, an infinity, or \<^verbatim>\<open>NaN\<close>. The two zeros are one
  value here (the sign of a zero decides nothing in \<^verbatim>\<open>ear\<close>, whose divisor has passed
  the test \<^verbatim>\<open>denom <= 1e-6\<close> when a division takes place).
\<close>

datatype jsnum = Fin real | PInf | NInf | NaN

text \<open>Rounding to the nearest integer, a tie going to the even one.\<close>

definition rne :: "real \<Rightarrow> int" where
  "rne y =
     (let f = \<lfloor>y\<rfloor>; d = y - of_int f
      in if d < 1 / 2 then f else if 1 / 2 < d then f + 1 else if even f then f else f + 1)"

text \<open>
  The spacing of the doubles around \<open>x\<close>: 52 binary places below the leading one, and
  never below 2 to the power -1074, the spacing of the subnormal numbers.
\<close>

definition quantum :: "real \<Rightarrow> real" where
  "quantum x = 2 powr of_int (max \<lfloor>log 2 \<bar>x\<bar>\<rfloor> (- 1022) - 52)"

text \<open>The multiple of the spacing that is nearest to \<open>x\<close>.\<close>

definition rounded :: "real \<Rightarrow> real" where
  "rounded x = quantum x * of_int (rne (x / quantum x))"

text \<open>
  The double that an exact result \<open>x\<close> is rounded to: \<open>rounded x\<close>, and an infinity when
  that has left the range of the doubles. \<open>isDouble\<close> holds of the reals that are doubles.
\<close>

definition fl :: "real \<Rightarrow> jsnum" where
  "fl x =
     (if x = 0 then Fin 0
      else
        (let r = quantum x * of_int (rne (x / quantum x))
         in if 2 ^ 1024 \<le> \<bar>r\<bar> then (if 0 < x then PInf else NInf) else Fin r))"

definition isDouble :: "real \<Rightarrow> bool" where
  "isDouble x \<longleftrightarrow> fl x = Fin x"

definition signedInf :: "real \<Rightarrow> jsnum" where
  "signedInf s = (if s = 0 then NaN else if 0 < s then PInf else NInf)"

text \<open>The operators \<^verbatim>\<open>+\<close>, \<^verbatim>\<open>*\<close>, \<^verbatim>\<open>/\<close> and \<^verbatim>\<open><=\<close> on numbers.\<close>

fun js_add :: "jsnum \<Rightarrow> jsnum \<Rightarrow> jsnum" where
  "js_add (Fin x) (Fin y) = fl (x + y)"
| "js_add NaN b = NaN"
| "js_add a NaN = NaN"
| "js_add PInf NInf = NaN"
| "js_add NInf PInf = NaN"
| "js_add PInf b = PInf"
| "js_add a PInf = PInf"
| "js_add NInf b = NInf"
| "js_add a NInf = NInf"

fun js_mul :: "jsnum \<Rightarrow> jsnum \<Rightarrow> jsnum" where
  "js_mul (Fin x) (Fin y) = fl (x * y)"
| "js_mul NaN b = NaN"
| "js_mul a NaN = NaN"
| "js_mul (Fin x) PInf = signedInf x"
| "js_mul (Fin x) NInf = signedInf (- x)"
| "js_mul PInf (Fin y) = signedInf y"
| "js_mul NInf (Fin y) = signedInf (- y)"
| "js_mul PInf PInf = PInf"
| "js_mul NInf NInf = PInf"
| "js_mul PInf NInf = NInf"
| "js_mul NInf PInf = NInf"

fun js_div :: "jsnum \<Rightarrow> jsnum \<Rightarrow> jsnum" where
  "js_div (Fin x) (Fin y) = (if y = 0 then signedInf x else fl (x / y))"
| "js_div NaN b = NaN"
| "js_div a NaN = NaN"
| "js_div (Fin x) PInf = Fin 0"
| "js_div (Fin x) NInf = Fin 0"
| "js_div PInf (Fin y) = (if 0 \<le> y then PInf else NInf)"
| "js_div NInf (Fin y) = (if 0 \<le> y then NInf else PInf)"
| "js_div a b = NaN"

fun js_le :: "jsnum \<Rightarrow> jsnum \<Rightarrow> bool" where
  "js_le (Fin x) (Fin y) = (x \<le> y)"
| "js_le NaN b = False"
| "js_le a NaN = False"
| "js_le NInf b = True"
| "js_le a PInf = True"
| "js_le a b = False"

text \<open>
  \<^verbatim>\<open>Math.hypot\<close> of two numbers: \<^verbatim>\<open>Infinity\<close> when an argument is infinite, else
  \<^verbatim>\<open>NaN\<close> when one is \<^verbatim>\<open>NaN\<close>, else the root of the sum of the squares. The
  language leaves the precision of the last case to the engine; it is taken here as the
  exact root, rounded once.
\<close>

fun hypot :: "jsnum \<Rightarrow> jsnum \<Rightarrow> jsnum" where
  "hypot (Fin x) (Fin y) = fl (sqrt (x\<^sup>2 + y\<^sup>2))"
| "hypot PInf b = PInf"
| "hypot NInf b = PInf"
| "hypot a PInf = PInf"
| "hypot a NInf = PInf"
| "hypot a b = NaN"

subsection \<open>Geometry\<close>

text \<open>A landmark; its coordinates are finite numbers.\<close>

record Point =
  px :: real
  py :: real

text \<open>
  \<^verbatim>\<open>dist(a, b)\<close>, that is \<^verbatim>\<open>Math.hypot(a.x - b.x, a.y - b.y)\<close>; named \<open>dist_pt\<close> here
  because \<open>dist\<close> is the metric of the library.
\<close>

definition dist_pt :: "Point \<Rightarrow> Point \<Rightarrow> jsnum" where
  "dist_pt a b = hypot (fl (px a - px b)) (fl (py a - py b))"

definition ear :: "Point \<Rightarrow> Point \<Rightarrow> Point \<Rightarrow> Point \<Rightarrow> Point \<Rightarrow> Point \<Rightarrow> jsnum" where
  "ear p1 p2 p3 p4 p5 p6 =
     (let denom = js_mul (Fin 2) (dist_pt p1 p4)
      in if js_le denom (fl (1 / 1000000)) then Fin 0
         else js_div (js_add (dist_pt p2 p6) (dist_pt p3 p5)) denom)"

text \<open>
  The landmark indices of the two eyes, and the per-frame score: the mean of the two
  eyes' ratios. A landmark the frame does not have is \<^verbatim>\<open>undefined\<close>, and \<open>dist\<close>
  throws a \<^verbatim>\<open>TypeError\<close> when it reads its \<^verbatim>\<open>x\<close>; \<open>ear\<close> reads \<open>p1\<close> and \<open>p4\<close>
  first and the other four points only when the denominator passes the guard.
\<close>

datatype FrameError = TypeError | NonFinite

definition landmark :: "Point list \<Rightarrow> nat \<Rightarrow> FrameError + Point" where
  "landmark lm i = (if i < length lm then Inr (lm ! i) else Inl TypeError)"

definition earAt :: "Point list \<Rightarrow> nat \<Rightarrow> nat \<Rightarrow> nat \<Rightarrow> nat \<Rightarrow> nat \<Rightarrow> nat \<Rightarrow> FrameError + jsnum" where
  "earAt lm i1 i2 i3 i4 i5 i6 =
     (case (landmark lm i1, landmark lm i4) of
        (Inr p1, Inr p4) \<Rightarrow>
          if js_le (js_mul (Fin 2) (dist_pt p1 p4)) (fl (1 / 1000000)) then Inr (Fin 0)
          else
            (case (landmark lm i2, landmark lm i6, landmark lm i3, landmark lm i5) of
               (Inr p2, Inr p6, Inr p3, Inr p5) \<Rightarrow> Inr (ear p1 p2 p3 p4 p5 p6)
             | _ \<Rightarrow> Inl TypeError)
      | _ \<Rightarrow> Inl TypeError)"

definition curEarOf :: "Point list \<Rightarrow> FrameError + jsnum" where
  "curEarOf lm =
     (case earAt lm 33 160 159 133 145 144 of
        Inl e \<Rightarrow> Inl e
      | Inr left \<Rightarrow>
          (case earAt lm 362 387 386 263 374 373 of
             Inl e \<Rightarrow> Inl e
           | Inr right \<Rightarrow> Inr (js_div (js_add left right) (Fin 2))))"

subsection \<open>Loading the script\<close>

text \<open>
  \<^verbatim>\<open>loadScriptOnce\<close> (lines 25 to 45) looks in the document for a script element of the
  given source. Such an element is only ever appended by \<^verbatim>\<open>loadScriptOnce\<close> itself, so
  the document is in one of four states: it has no such element; it has one whose
  \<^verbatim>\<open>load\<close> and \<^verbatim>\<open>error\<close> events are yet to come; it has one that has loaded, whose
  \<^verbatim>\<open>onload\<close> has set \<^verbatim>\<open>_loaded\<close>; or it has one whose \<^verbatim>\<open>error\<close> event has
  fired, which stays in the document without the flag.
\<close>

datatype ScriptTag = NoTag | TagLoading | TagLoaded | TagFailed

text \<open>What becomes of the promise: it is fulfilled, rejected with a message, or never settled.\<close>

datatype Settlement = Fulfilled | Rejected string | Unsettled

text \<open>
  \<open>fetched\<close> tells whether a fetch of the script that is under way, or that this call
  begins, succeeds. Listeners added to an element whose events have already fired are
  never called.
\<close>

definition loadScriptOnce :: "string \<Rightarrow> bool \<Rightarrow> ScriptTag \<Rightarrow> ScriptTag \<times> Settlement" where
  "loadScriptOnce src fetched existing =
     (if existing \<noteq> NoTag then
        (if existing = TagLoaded then (existing, Fulfilled)
         else if existing = TagLoading then
           (if fetched then (TagLoaded, Fulfilled)
            else (TagFailed, Rejected (''Failed to load '' @ src)))
         else (existing, Unsettled))
      else
        (if fetched then (TagLoaded, Fulfilled)
         else (TagFailed, Rejected (''Failed to load '' @ src))))"

subsection \<open>The reducer\<close>

datatype NotifPermission = PermDefault | PermGranted | PermDenied

record UiState =
  running :: bool
  calibrating :: bool
  blinks :: nat
  blinksPerMin :: real
  secondsSinceBlink :: real
  alertOn :: bool
  noBlinkThreshold :: real
  agreed :: bool
  error :: "string option"
  notifEnabled :: bool
  notifPermission :: NotifPermission

datatype Action =
    START
  | STOP
  | CALIBRATION_DONE
  | SET_BLINKS nat
  | SET_BPM real
  | SET_SECONDS real
  | ALERT_ON
  | ALERT_OFF
  | SET_THRESHOLD real
  | AGREE
  | ERROR string
  | CLEAR_ERROR
  | SET_NOTIF_ENABLED bool
  | SET_NOTIF_PERMISSION NotifPermission

definition initialState :: UiState where
  "initialState =
     \<lparr> running = False, calibrating = False, blinks = 0, blinksPerMin = 0,
       secondsSinceBlink = 0, alertOn = False, noBlinkThreshold = 10, agreed = False,
       error = None, notifEnabled = True, notifPermission = PermDefault \<rparr>"

fun reducer :: "UiState \<Rightarrow> Action \<Rightarrow> UiState" where
  "reducer st START =
     initialState\<lparr> running := True, calibrating := True,
       noBlinkThreshold := noBlinkThreshold st, agreed := agreed st,
       notifEnabled := notifEnabled st, notifPermission := notifPermission st \<rparr>"
| "reducer st STOP = st\<lparr> running := False, calibrating := False, alertOn := False \<rparr>"
| "reducer st CALIBRATION_DONE =
     st\<lparr> calibrating := False, secondsSinceBlink := 0, alertOn := False \<rparr>"
| "reducer st (SET_BLINKS n) = st\<lparr> blinks := n \<rparr>"
| "reducer st (SET_BPM bpm) = st\<lparr> blinksPerMin := bpm \<rparr>"
| "reducer st (SET_SECONDS seconds) = st\<lparr> secondsSinceBlink := seconds \<rparr>"
| "reducer st ALERT_ON = st\<lparr> alertOn := True \<rparr>"
| "reducer st ALERT_OFF = st\<lparr> alertOn := False \<rparr>"
| "reducer st (SET_THRESHOLD seconds) = st\<lparr> noBlinkThreshold := seconds \<rparr>"
| "reducer st AGREE = st\<lparr> agreed := True \<rparr>"
| "reducer st (ERROR message) =
     st\<lparr> error := Some message, running := False, calibrating := False, alertOn := False \<rparr>"
| "reducer st CLEAR_ERROR = st\<lparr> error := None \<rparr>"
| "reducer st (SET_NOTIF_ENABLED enabled) = st\<lparr> notifEnabled := enabled \<rparr>"
| "reducer st (SET_NOTIF_PERMISSION perm) = st\<lparr> notifPermission := perm \<rparr>"

subsection \<open>The page: its refs, its reducer state and the effects it has performed\<close>

datatype EyeState = OPEN | CLOSED

text \<open>
  What the page does to the world outside it. A beep carries the \<^verbatim>\<open>performance.now()\<close>
  of the tick that asked for it, a notification the \<^verbatim>\<open>Date.now()\<close> read in
  \<^verbatim>\<open>showAlertNotification\<close>.
\<close>

datatype Effect =
    Dispatch Action
  | Beep real
  | NewNotification real
  | CancelAnimationFrame nat
  | ClearInterval nat
  | TrackStop nat

text \<open>
  A media stream is the list of its tracks. \<open>effects\<close> is the log of everything done so
  far, oldest first; \<open>scriptTag\<close> is the state of the FaceMesh script element in the
  document; the other fields are the \<^verbatim>\<open>useRef\<close> cells and the \<^verbatim>\<open>useReducer\<close>
  state of \<^verbatim>\<open>Page\<close>.
\<close>

record Page =
  scriptTag :: ScriptTag
  streamRef :: "nat list option"
  rafRef :: "nat option"
  timerRef :: "nat option"
  baselineEarRef :: "real option"
  calibStartRef :: "real option"
  maxEarRef :: real
  openSamplesRef :: "real list"
  eyeStateRef :: EyeState
  closedFramesRef :: nat
  lastBlinkMsRef :: real
  lastBlinkAtRef :: "real option"
  lastAlertAtRef :: real
  sessionStartRef :: "real option"
  blinkCountRef :: nat
  lastNotifAtRef :: real
  lastAlertOnRef :: bool
  lastBpmUpdateRef :: real
  uiState :: UiState
  effects :: "Effect list"

definition NOTIF_COOLDOWN_MS :: real where "NOTIF_COOLDOWN_MS = 5000"
definition CALIBRATION_MS :: real where "CALIBRATION_MS = 3000"
definition CLOSE_RATIO :: real where "CLOSE_RATIO = 0.62"
definition OPEN_RATIO :: real where "OPEN_RATIO = 0.82"
definition MIN_CLOSED_FRAMES :: nat where "MIN_CLOSED_FRAMES = 2"
definition MIN_BLINK_GAP_MS :: real where "MIN_BLINK_GAP_MS = 350"
definition ALERT_REPEAT_MS :: real where "ALERT_REPEAT_MS = 2000"
definition BPM_UPDATE_MS :: real where "BPM_UPDATE_MS = 400"

definition emit :: "Effect \<Rightarrow> Page \<Rightarrow> Page" where
  "emit e p = p\<lparr> effects := effects p @ [e] \<rparr>"

definition dispatch :: "Action \<Rightarrow> Page \<Rightarrow> Page" where
  "dispatch a p = emit (Dispatch a) (p\<lparr> uiState := reducer (uiState p) a \<rparr>)"

text \<open>\<^verbatim>\<open>beep()\<close>: the request for a tone; the Web Audio calls themselves are not modelled.\<close>

definition beep :: "real \<Rightarrow> Page \<Rightarrow> Page" where
  "beep now p = emit (Beep now) p"

text \<open>
  The values a session's callbacks close over: \<^verbatim>\<open>start\<close> runs in one render of the
  page, and the interval it installs keeps that render's \<^verbatim>\<open>noBlinkThreshold\<close>,
  \<^verbatim>\<open>notifEnabled\<close> and \<^verbatim>\<open>mounted\<close>.
\<close>

record Render =
  r_noBlinkThreshold :: real
  r_notifEnabled :: bool
  r_mounted :: bool

text \<open>What a tick reads from the browser: the notification API and the wall clock.\<close>

record Browser =
  notificationInWindow :: bool
  notificationPermission :: NotifPermission
  dateNow :: real

definition showAlertNotification :: "Render \<Rightarrow> Browser \<Rightarrow> Page \<Rightarrow> Page" where
  "showAlertNotification r b p =
     (if \<not> r_notifEnabled r then p
      else if \<not> r_mounted r then p
      else if \<not> notificationInWindow b then p
      else if notificationPermission b \<noteq> PermGranted then p
      else
        (let now = dateNow b
         in if now - lastNotifAtRef p < NOTIF_COOLDOWN_MS then p
            else emit (NewNotification now) (p\<lparr> lastNotifAtRef := now \<rparr>)))"

definition resetRefs :: "Page \<Rightarrow> Page" where
  "resetRefs p =
     p\<lparr> baselineEarRef := None, calibStartRef := None, maxEarRef := 0, openSamplesRef := [],
        eyeStateRef := OPEN, closedFramesRef := 0, lastBlinkMsRef := 0,
        lastBlinkAtRef := None, lastAlertAtRef := 0,
        sessionStartRef := None, blinkCountRef := 0,
        lastBpmUpdateRef := 0,
        lastNotifAtRef := 0, lastAlertOnRef := False \<rparr>"

text \<open>
  \<^verbatim>\<open>cleanupLoopsAndStream\<close>. The handles are tested for truthiness, so a handle 0 is
  dropped without being cancelled.
\<close>

definition cleanupLoopsAndStream :: "Page \<Rightarrow> Page" where
  "cleanupLoopsAndStream p =
     (let p1 = (case rafRef p of
                  Some h \<Rightarrow> if h \<noteq> 0 then emit (CancelAnimationFrame h) p else p
                | None \<Rightarrow> p);
          p2 = p1\<lparr> rafRef := None \<rparr>;
          p3 = (case timerRef p2 of
                  Some h \<Rightarrow> if h \<noteq> 0 then emit (ClearInterval h) p2 else p2
                | None \<Rightarrow> p2);
          p4 = p3\<lparr> timerRef := None \<rparr>
      in case streamRef p4 of
           Some tracks \<Rightarrow> (fold (\<lambda>t. emit (TrackStop t)) tracks p4)\<lparr> streamRef := None \<rparr>
         | None \<Rightarrow> p4)"

subsection \<open>The frame callback\<close>

text \<open>Lines 380 to 398: calibration, run while no baseline is set.\<close>

definition calibrate :: "real \<Rightarrow> real \<Rightarrow> Page \<Rightarrow> Page" where
  "calibrate curEar now p =
     (let calibStart = (case calibStartRef p of None \<Rightarrow> now | Some c \<Rightarrow> c);
          p1 = p\<lparr> calibStartRef := Some calibStart \<rparr>;
          p2 = p1\<lparr> maxEarRef := max (maxEarRef p1) curEar \<rparr>;
          p3 = (if curEar > maxEarRef p2 * 0.8
                then p2\<lparr> openSamplesRef := openSamplesRef p2 @ [curEar] \<rparr> else p2)
      in if now - calibStart \<ge> CALIBRATION_MS then
           (let samples = openSamplesRef p3;
                p4 = p3\<lparr> baselineEarRef :=
                         Some (if length samples > 0
                               then foldl (\<lambda>a b. a + b) 0 samples / real (length samples)
                               else maxEarRef p3) \<rparr>;
                p5 = dispatch CALIBRATION_DONE p4;
                p6 = p5\<lparr> lastBlinkAtRef := Some now \<rparr>;
                p7 = dispatch (SET_SECONDS 0) p6
            in dispatch ALERT_OFF p7)
         else p3)"

text \<open>Lines 419 to 426: what a counted blink does.\<close>

definition blinkEvent :: "real \<Rightarrow> Page \<Rightarrow> Page" where
  "blinkEvent now p =
     (let p1 = p\<lparr> blinkCountRef := blinkCountRef p + 1 \<rparr>;
          p2 = dispatch (SET_BLINKS (blinkCountRef p1)) p1;
          p3 = p2\<lparr> lastBlinkMsRef := now \<rparr>;
          p4 = p3\<lparr> lastBlinkAtRef := Some now \<rparr>;
          p5 = dispatch (SET_SECONDS 0) p4
      in dispatch ALERT_OFF p5)"

text \<open>Lines 401 to 432: the blink state machine.\<close>

definition blinkStateMachine :: "real \<Rightarrow> real \<Rightarrow> real \<Rightarrow> Page \<Rightarrow> Page" where
  "blinkStateMachine baseline curEar now p =
     (let closeThr = baseline * CLOSE_RATIO;
          openThr = baseline * OPEN_RATIO
      in if eyeStateRef p = OPEN then
           (if curEar < closeThr then p\<lparr> closedFramesRef := 1, eyeStateRef := CLOSED \<rparr>
            else p)
         else
           (let p1 = (if curEar < closeThr
                      then p\<lparr> closedFramesRef := closedFramesRef p + 1 \<rparr> else p)
            in if curEar > openThr then
                 (let longEnough = (closedFramesRef p1 \<ge> MIN_CLOSED_FRAMES);
                      farEnough = (now - lastBlinkMsRef p1 \<ge> MIN_BLINK_GAP_MS);
                      p2 = (if longEnough \<and> farEnough then blinkEvent now p1 else p1)
                  in p2\<lparr> eyeStateRef := OPEN, closedFramesRef := 0 \<rparr>)
               else p1))"

text \<open>Lines 435 to 442: blinks per minute, published at most every \<open>BPM_UPDATE_MS\<close>.\<close>

definition updateBpm :: "real \<Rightarrow> Page \<Rightarrow> Page" where
  "updateBpm now p =
     (let sessionStart = (case sessionStartRef p of None \<Rightarrow> now | Some s \<Rightarrow> s);
          p1 = p\<lparr> sessionStartRef := Some sessionStart \<rparr>;
          minutes = (now - sessionStart) / 60000;
          bpm = (if minutes > 0 then real (blinkCountRef p1) / minutes else 0)
      in if now - lastBpmUpdateRef p1 \<ge> BPM_UPDATE_MS
         then dispatch (SET_BPM bpm) (p1\<lparr> lastBpmUpdateRef := now \<rparr>)
         else p1)"

text \<open>The callback from the point where \<^verbatim>\<open>curEar\<close> is known (lines 379 to 442).\<close>

definition onEar :: "real \<Rightarrow> real \<Rightarrow> Page \<Rightarrow> Page" where
  "onEar curEar now p =
     (case baselineEarRef p of
        None \<Rightarrow> calibrate curEar now p
      | Some baseline \<Rightarrow> updateBpm now (blinkStateMachine baseline curEar now p))"

text \<open>
  The whole callback of \<^verbatim>\<open>mesh.onResults\<close>: \<open>faces\<close> is
  \<^verbatim>\<open>res.multiFaceLandmarks\<close>; a result with no face is ignored. \<open>TypeError\<close> is a
  throw of the source. \<open>NonFinite\<close> is not: the source goes on with a score that is an
  infinity or \<^verbatim>\<open>NaN\<close>, and the model of the page, which is over finite scores, stops
  there.
\<close>

definition onResults :: "Point list list \<Rightarrow> real \<Rightarrow> Page \<Rightarrow> FrameError + Page" where
  "onResults faces now p =
     (case faces of
        [] \<Rightarrow> Inr p
      | lm # _ \<Rightarrow>
          (case curEarOf lm of
             Inl e \<Rightarrow> Inl e
           | Inr (Fin curEar) \<Rightarrow> Inr (onEar curEar now p)
           | Inr _ \<Rightarrow> Inl NonFinite))"

subsection \<open>The monitor interval\<close>

text \<open>
  Lines 463 to 491. The guard \<^verbatim>\<open>!baselineEarRef.current\<close> holds for \<^verbatim>\<open>null\<close> and
  for the number 0.
\<close>

definition monitorTick :: "Render \<Rightarrow> Browser \<Rightarrow> real \<Rightarrow> Page \<Rightarrow> Page" where
  "monitorTick r b now p =
     (if baselineEarRef p = None \<or> baselineEarRef p = Some 0 then p
      else
        (let last = (case lastBlinkAtRef p of None \<Rightarrow> now | Some l \<Rightarrow> l);
             sec = max 0 ((now - last) / 1000);
             p1 = dispatch (SET_SECONDS sec) p
         in if sec \<ge> r_noBlinkThreshold r then
              (let p2 = dispatch ALERT_ON p1;
                   p3 = (if \<not> lastAlertOnRef p2
                         then showAlertNotification r b (p2\<lparr> lastAlertOnRef := True \<rparr>)
                         else showAlertNotification r b p2)
               in if now - lastAlertAtRef p3 \<ge> ALERT_REPEAT_MS
                  then beep now (p3\<lparr> lastAlertAtRef := now \<rparr>)
                  else p3)
            else (dispatch ALERT_OFF p1)\<lparr> lastAlertOnRef := False \<rparr>))"

subsection \<open>A running session: frames and ticks, one after the other\<close>

datatype Event = Frame real real | Tick real Browser

fun eventTime :: "Event \<Rightarrow> real" where
  "eventTime (Frame curEar now) = now"
| "eventTime (Tick now b) = now"

fun step :: "Render \<Rightarrow> Page \<Rightarrow> Event \<Rightarrow> Page" where
  "step r p (Frame curEar now) = onEar curEar now p"
| "step r p (Tick now b) = monitorTick r b now p"

definition run :: "Render \<Rightarrow> Page \<Rightarrow> Event list \<Rightarrow> Page" where
  "run r p es = foldl (step r) p es"

subsection \<open>Starting a session\<close>

text \<open>
  What the calls \<^verbatim>\<open>start\<close> awaits of the browser can do: resolve with a value, or
  throw. A thrown value is kept as its \<^verbatim>\<open>message\<close> (\<open>None\<close> when it has none), which
  is all the handler reads. \<open>scriptFetch\<close> tells whether the browser's fetch of the
  script succeeds.
\<close>

datatype 'a Outcome = Resolves 'a | Throws "string option"

record StartEnv =
  scriptFetch :: bool
  getUserMedia :: "nat list Outcome"
  videoReady :: bool
  canvasReady :: bool
  videoPlay :: "unit Outcome"
  canvasContext :: bool
  faceMeshPresent :: bool
  meshSetup :: "unit Outcome"
  rafHandle :: nat
  timerHandle :: nat

definition FACE_MESH_SRC :: string where
  "FACE_MESH_SRC = ''https://cdn.jsdelivr.net/npm/@mediapipe/face_mesh/face_mesh.js''"

text \<open>
  The body of the \<^verbatim>\<open>try\<close> (lines 335 to 491). \<open>Installed\<close> is the page with the frame
  loop and the interval installed; \<open>Threw\<close> is a throw, with the page as it was at the
  throw; \<open>Suspended\<close> is the page at an \<^verbatim>\<open>await\<close> of a promise that never settles, after
  which nothing of \<^verbatim>\<open>start\<close> runs any more.
\<close>

datatype SetupResult = Installed Page | Threw "string option" Page | Suspended Page

definition trySetup :: "StartEnv \<Rightarrow> Page \<Rightarrow> SetupResult" where
  "trySetup env p =
     (case loadScriptOnce FACE_MESH_SRC (scriptFetch env) (scriptTag p) of
        (tag, Unsettled) \<Rightarrow> Suspended (p\<lparr> scriptTag := tag \<rparr>)
      | (tag, Rejected message) \<Rightarrow> Threw (Some message) (p\<lparr> scriptTag := tag \<rparr>)
      | (tag, Fulfilled) \<Rightarrow>
          (let p0 = p\<lparr> scriptTag := tag \<rparr>
           in case getUserMedia env of
                Throws m \<Rightarrow> Threw m p0
              | Resolves stream \<Rightarrow>
                  (let p1 = p0\<lparr> streamRef := Some stream \<rparr>
                   in if \<not> videoReady env \<or> \<not> canvasReady env
                      then Threw (Some ''Video/canvas not ready.'') p1
                      else
                        (case videoPlay env of
                           Throws m \<Rightarrow> Threw m p1
                         | Resolves _ \<Rightarrow>
                             if \<not> canvasContext env
                             then Threw (Some ''Failed to get canvas 2D context.'') p1
                             else if \<not> faceMeshPresent env
                             then Threw (Some ''FaceMesh failed to load (window.FaceMesh missing).'') p1
                             else
                               (case meshSetup env of
                                  Throws m \<Rightarrow> Threw m p1
                                | Resolves _ \<Rightarrow>
                                    Installed (p1\<lparr> rafRef := Some (rafHandle env),
                                                  timerRef := Some (timerHandle env) \<rparr>))))))"

text \<open>Lines 330 to 332: what \<^verbatim>\<open>start\<close> does before the \<^verbatim>\<open>try\<close>.\<close>

definition beginSession :: "Page \<Rightarrow> Page" where
  "beginSession p =
     (let p1 = dispatch CLEAR_ERROR p;
          p2 = resetRefs p1
      in dispatch START p2)"

text \<open>
  \<^verbatim>\<open>start\<close>, as one step of the page. The \<^verbatim>\<open>catch\<close> runs on a throw; when the
  \<^verbatim>\<open>try\<close> is suspended for ever, the page stays as it is at that \<^verbatim>\<open>await\<close>.
\<close>

definition start :: "StartEnv \<Rightarrow> Page \<Rightarrow> Page" where
  "start env p =
     (if \<not> agreed (uiState p) then p
      else
        (case trySetup env (beginSession p) of
           Threw m q \<Rightarrow>
             dispatch (ERROR (case m of Some message \<Rightarrow> message | None \<Rightarrow> ''Failed to start.''))
               (cleanupLoopsAndStream q)
         | Installed q \<Rightarrow> q
         | Suspended q \<Rightarrow> q))"

text \<open>The page as first rendered: the initial values of the refs and of the reducer.\<close>

definition initialPage :: Page where
  "initialPage =
     \<lparr> scriptTag = NoTag, streamRef = None, rafRef = None, timerRef = None,
       baselineEarRef = None, calibStartRef = None, maxEarRef = 0, openSamplesRef = [],
       eyeStateRef = OPEN, closedFramesRef = 0, lastBlinkMsRef = 0,
       lastBlinkAtRef = None, lastAlertAtRef = 0,
       sessionStartRef = None, blinkCountRef = 0,
       lastNotifAtRef = 0, lastAlertOnRef = False, lastBpmUpdateRef = 0,
       uiState = initialState, effects = [] \<rparr>"

subsection \<open>Ranges of numbers\<close>

text \<open>A point both of whose coordinates are at most \<open>2 ^ 990\<close>, about \<open>1e298\<close>, in size.\<close>

definition inRange :: "Point \<Rightarrow> bool" where
  "inRange p \<longleftrightarrow> \<bar>px p\<bar> \<le> 2 ^ 990 \<and> \<bar>py p\<bar> \<le> 2 ^ 990"

text \<open>A number that is finite and not negative, or \<^verbatim>\<open>Infinity\<close>.\<close>

fun nonnegOrInf :: "jsnum \<Rightarrow> bool" where
  "nonnegOrInf (Fin x) = (0 \<le> x)"
| "nonnegOrInf PInf = True"
| "nonnegOrInf NInf = False"
| "nonnegOrInf NaN = False"

text \<open>A number that is not below zero: the former, or \<^verbatim>\<open>NaN\<close>.\<close>

fun notNegative :: "jsnum \<Rightarrow> bool" where
  "notNegative (Fin x) = (0 \<le> x)"
| "notNegative PInf = True"
| "notNegative NInf = False"
| "notNegative NaN = True"

subsection \<open>Observing a run\<close>

text \<open>The effects performed on the way from page \<open>p\<close> to page \<open>p'\<close>.\<close>

definition emitted :: "Page \<Rightarrow> Page \<Rightarrow> Effect list" where
  "emitted p p' = drop (length (effects p)) (effects p')"

text \<open>
  What holds of the calibration refs in every page a session reaches: the running maximum
  starts at 0 and only grows, a sample is kept only when it exceeds 0.8 times that
  maximum, and the baseline is a mean of kept samples or the maximum itself.
\<close>

definition calibInv :: "Page \<Rightarrow> bool" where
  "calibInv p \<longleftrightarrow>
     0 \<le> maxEarRef p \<and> list_all (\<lambda>x. 0 < x) (openSamplesRef p) \<and>
     (case baselineEarRef p of None \<Rightarrow> True | Some b \<Rightarrow> 0 \<le> b)"

text \<open>The condition under which the state machine counts a blink on a frame.\<close>

definition blinkQualifies :: "real \<Rightarrow> real \<Rightarrow> real \<Rightarrow> Page \<Rightarrow> bool" where
  "blinkQualifies baseline curEar now p \<longleftrightarrow>
     eyeStateRef p = CLOSED \<and> curEar > baseline * OPEN_RATIO \<and>
     closedFramesRef p \<ge> MIN_CLOSED_FRAMES \<and>
     now - lastBlinkMsRef p \<ge> MIN_BLINK_GAP_MS"

subsection \<open>The calibration window of a run\<close>

text \<open>
  The EAR values of the frames in the calibration window: from the first frame of the
  session up to and including the first frame at which \<open>CALIBRATION_MS\<close> have elapsed
  since that first frame. \<open>first\<close> is the time of the first frame once it is known.
  Ticks carry no EAR.
\<close>

fun windowEars :: "real option \<Rightarrow> Event list \<Rightarrow> real list" where
  "windowEars first [] = []"
| "windowEars first (Tick now b # es) = windowEars first es"
| "windowEars first (Frame curEar now # es) =
     (let s = (case first of None \<Rightarrow> now | Some c \<Rightarrow> c)
      in curEar # (if CALIBRATION_MS \<le> now - s then [] else windowEars (Some s) es))"

text \<open>Whether the window expires within the run.\<close>

fun windowExpired :: "real option \<Rightarrow> Event list \<Rightarrow> bool" where
  "windowExpired first [] = False"
| "windowExpired first (Tick now b # es) = windowExpired first es"
| "windowExpired first (Frame curEar now # es) =
     (let s = (case first of None \<Rightarrow> now | Some c \<Rightarrow> c)
      in if CALIBRATION_MS \<le> now - s then True else windowExpired (Some s) es)"


text \<open>The baseline, once set, is the mean of the kept samples, or the maximum when none was kept.\<close>

definition baselineOk :: "Page \<Rightarrow> bool" where
  "baselineOk p \<longleftrightarrow>
     (case baselineEarRef p of
        None \<Rightarrow> True
      | Some b \<Rightarrow> b = (if openSamplesRef p = [] then maxEarRef p
                       else sum_list (openSamplesRef p) / real (length (openSamplesRef p))))"

subsection \<open>Kinds of events and effects\<close>

fun isFrame :: "Event \<Rightarrow> bool" where
  "isFrame (Frame curEar now) = True"
| "isFrame (Tick now b) = False"

text \<open>The effects of an alert: raising the flag, a beep, a notification.\<close>

fun alertEffect :: "Effect \<Rightarrow> bool" where
  "alertEffect (Dispatch a) = (a = ALERT_ON)"
| "alertEffect (Beep t) = True"
| "alertEffect (NewNotification t) = True"
| "alertEffect (CancelAnimationFrame h) = False"
| "alertEffect (ClearInterval h) = False"
| "alertEffect (TrackStop t) = False"

text \<open>
  In every page a session reaches, no sample has been kept exactly when the running
  maximum is still 0: the first strictly positive EAR is its own maximum and is kept.
\<close>

definition samplesInv :: "Page \<Rightarrow> bool" where
  "samplesInv p \<longleftrightarrow> 0 \<le> maxEarRef p \<and> (openSamplesRef p = []) = (maxEarRef p = 0)"

text \<open>A page whose calibration ended with the baseline 0, or has not ended: no alert is on.\<close>

definition quietInv :: "Page \<Rightarrow> bool" where
  "quietInv p \<longleftrightarrow>
     (baselineEarRef p = None \<or> baselineEarRef p = Some 0 \<longrightarrow> \<not> alertOn (uiState p)) \<and>
     (baselineEarRef p \<noteq> None \<longrightarrow> \<not> calibrating (uiState p))"

subsection \<open>What a tick computes\<close>

text \<open>The seconds since the last blink as a tick at \<open>now\<close> computes them (lines 466 to 468).\<close>

definition tickSeconds :: "real \<Rightarrow> Page \<Rightarrow> real" where
  "tickSeconds now p =
     max 0 ((now - (case lastBlinkAtRef p of None \<Rightarrow> now | Some l \<Rightarrow> l)) / 1000)"

text \<open>The guard of the interval lets the tick through.\<close>

definition monitorActive :: "Page \<Rightarrow> bool" where
  "monitorActive p \<longleftrightarrow> baselineEarRef p \<noteq> None \<and> baselineEarRef p \<noteq> Some 0"

text \<open>\<^verbatim>\<open>showAlertNotification\<close> gets as far as \<^verbatim>\<open>new Notification\<close>.\<close>

definition notifFires :: "Render \<Rightarrow> Browser \<Rightarrow> Page \<Rightarrow> bool" where
  "notifFires r b p \<longleftrightarrow>
     r_notifEnabled r \<and> r_mounted r \<and> notificationInWindow b \<and>
     notificationPermission b = PermGranted \<and>
     dateNow b - lastNotifAtRef p \<ge> NOTIF_COOLDOWN_MS"

text \<open>
  What relates the alert flag to the rest of the page in a session, at a time \<open>t\<close> no
  later than the events to come: the flag is on exactly when the published seconds have
  reached the threshold, and then the last blink lies at least the threshold before \<open>t\<close>.
\<close>

definition alertInv :: "Render \<Rightarrow> real \<Rightarrow> Page \<Rightarrow> bool" where
  "alertInv r t p \<longleftrightarrow>
     alertOn (uiState p) = (r_noBlinkThreshold r \<le> secondsSinceBlink (uiState p)) \<and>
     (if alertOn (uiState p)
      then baselineEarRef p \<noteq> None \<and>
           (case lastBlinkAtRef p of
              None \<Rightarrow> False
            | Some l \<Rightarrow> r_noBlinkThreshold r \<le> (t - l) / 1000)
      else True)"

subsection \<open>Times of beeps and notifications\<close>

fun beepTimes :: "Effect list \<Rightarrow> real list" where
  "beepTimes [] = []"
| "beepTimes (Beep t # xs) = t # beepTimes xs"
| "beepTimes (x # xs) = beepTimes xs"

fun notifTimes :: "Effect list \<Rightarrow> real list" where
  "notifTimes [] = []"
| "notifTimes (NewNotification t # xs) = t # notifTimes xs"
| "notifTimes (x # xs) = notifTimes xs"

text \<open>Any two times of the list, in the order they were logged, are at least \<open>d\<close> apart.\<close>

fun spaced :: "real \<Rightarrow> real list \<Rightarrow> bool" where
  "spaced d [] = True"
| "spaced d (t # ts) = (list_all (\<lambda>u. d \<le> u - t) ts \<and> spaced d ts)"

text \<open>Each time is at least \<open>d\<close> after the one before it, the first after \<open>l\<close>.\<close>

fun chained :: "real \<Rightarrow> real \<Rightarrow> real list \<Rightarrow> bool" where
  "chained d l [] = True"
| "chained d l (t # ts) = (d \<le> t - l \<and> chained d t ts)"

text \<open>An effect list in which no beep and no notification precedes the first \<open>ALERT_ON\<close>.\<close>

fun alertFirst :: "Effect list \<Rightarrow> bool" where
  "alertFirst [] = True"
| "alertFirst (Dispatch a # xs) = (a = ALERT_ON \<or> alertFirst xs)"
| "alertFirst (Beep t # xs) = False"
| "alertFirst (NewNotification t # xs) = False"
| "alertFirst (x # xs) = alertFirst xs"

subsection \<open>The teardown\<close>

text \<open>What the cleanup emits for the handles and the stream of a page.\<close>

definition teardown :: "Page \<Rightarrow> Effect list" where
  "teardown p =
     (case rafRef p of Some h \<Rightarrow> if h \<noteq> 0 then [CancelAnimationFrame h] else [] | None \<Rightarrow> []) @
     (case timerRef p of Some h \<Rightarrow> if h \<noteq> 0 then [ClearInterval h] else [] | None \<Rightarrow> []) @
     (case streamRef p of Some tracks \<Rightarrow> map TrackStop tracks | None \<Rightarrow> [])"

subsection \<open>Concrete sessions\<close>

text \<open>
  A render with a threshold of five seconds and notifications enabled, and a browser
  that grants notifications and shows the wall clock \<open>t\<close>.
\<close>

definition render5 :: Render where
  "render5 = \<lparr> r_noBlinkThreshold = 5, r_notifEnabled = True, r_mounted = True \<rparr>"

definition browserGranted :: "real \<Rightarrow> Browser" where
  "browserGranted t =
     \<lparr> notificationInWindow = True, notificationPermission = PermGranted, dateNow = t \<rparr>"

text \<open>
  Calibration frames: one window with a mean of 0.32 over the two kept samples, one with
  EAR 0 throughout; and events that come after a calibration.
\<close>

definition calibrationFrames :: "Event list" where
  "calibrationFrames = [Frame 0.30 0, Frame 0.20 1500, Frame 0.34 3000]"

definition zeroFrames :: "Event list" where
  "zeroFrames = [Frame 0 0, Frame 0 1500, Frame 0 3000]"


definition zeroCalibrated :: Page where
  "zeroCalibrated = run render5 (beginSession initialPage) zeroFrames"

definition longSilence :: "Event list" where
  "longSilence =
     [Tick 20000 (browserGranted 1000020000), Frame 0 20033, Frame 0.30 20066,
      Tick 30000 (browserGranted 1000030000)]"

text \<open>
  Sessions in which two frames calibrate a baseline of 0.30 by the time 3000: the page
  right after, one open frame later, and after one and after two closed frames.
\<close>

definition calibrated :: Page where
  "calibrated = run render5 (beginSession initialPage) [Frame 0.30 0, Frame 0.30 3000]"

definition openAfterCalibration :: Page where
  "openAfterCalibration =
     run render5 (beginSession initialPage) [Frame 0.30 0, Frame 0.30 3000, Frame 0.30 3033]"

definition closedOnce :: Page where
  "closedOnce =
     run render5 (beginSession initialPage)
       [Frame 0.30 0, Frame 0.30 3000, Frame 0.30 3033, Frame 0.15 3066]"

definition closedTwice :: Page where
  "closedTwice =
     run render5 (beginSession initialPage)
       [Frame 0.30 0, Frame 0.30 3000, Frame 0.30 3033, Frame 0.15 3066, Frame 0.12 3099]"

text \<open>
  The same calibration followed by ticks: a page 4.9 seconds after the last blink, a page
  on which the alert is on and the eyes have been closed for two frames, and the ticks of
  a sustained alert.
\<close>

definition quietEvents :: "Event list" where
  "quietEvents = [Frame 0.30 0, Frame 0.30 3000, Tick 7900 (browserGranted 1000007900)]"

definition alertEvents :: "Event list" where
  "alertEvents =
     [Frame 0.30 0, Frame 0.30 3000, Tick 8000 (browserGranted 1000008000),
      Frame 0.15 8033, Frame 0.12 8066]"

definition aboutToAlert :: Page where
  "aboutToAlert = run render5 (beginSession initialPage) quietEvents"

definition alerting :: Page where
  "alerting = run render5 (beginSession initialPage) alertEvents"

definition alertTicks :: "Event list" where
  "alertTicks =
     [Tick 8000 (browserGranted 1000008000), Tick 9000 (browserGranted 1000009000),
      Tick 10000 (browserGranted 1000010000), Tick 13000 (browserGranted 1000013000)]"

text \<open>
  A page on which the user has agreed; a browser in which every step of the setup
  succeeds; one that cannot fetch the script; one whose camera is denied; and one that
  gives a stream of one track to a page that has no canvas.
\<close>

definition agreedPage :: Page where
  "agreedPage = dispatch AGREE initialPage"

definition online :: StartEnv where
  "online =
     \<lparr> scriptFetch = True, getUserMedia = Resolves [7],
       videoReady = True, canvasReady = True, videoPlay = Resolves (),
       canvasContext = True, faceMeshPresent = True, meshSetup = Resolves (),
       rafHandle = 1, timerHandle = 2 \<rparr>"

definition offline :: StartEnv where
  "offline = online\<lparr> scriptFetch := False \<rparr>"

definition cameraDenied :: StartEnv where
  "cameraDenied = online\<lparr> getUserMedia := Throws (Some ''Permission denied'') \<rparr>"

definition noCanvas :: StartEnv where
  "noCanvas = online\<lparr> canvasReady := False \<rparr>"

text \<open>Points on the two axes.\<close>

definition origin :: Point where
  "origin = \<lparr>px = 0, py = 0\<rparr>"

definition onX :: "real \<Rightarrow> Point" where
  "onX x = \<lparr>px = x, py = 0\<rparr>"

definition onY :: "real \<Rightarrow> Point" where
  "onY y = \<lparr>px = 0, py = y\<rparr>"

section \<open>Properties\<close>

subsection \<open>Unfolding and runs\<close>

lemmas page_defs = emit_def dispatch_def beep_def blinkEvent_def blinkStateMachine_def updateBpm_def
  calibrate_def onEar_def monitorTick_def showAlertNotification_def

lemma run_Nil: "run r p [] = p"
  by (simp add: run_def)
lemma run_Cons: "run r p (e # es) = run r (step r p e) es"
  by (simp add: run_def)
lemma run_snoc: "run r p (es @ [e]) = step r (run r p es) e"
  by (simp add: run_def)
lemma run_append: "run r p (es @ fs) = run r (run r p es) fs"
  by (simp add: run_def)

lemma foldl_plus_sum_list: "foldl (\<lambda>a b. a + b) a xs = a + sum_list (xs :: real list)"
  by (induction xs arbitrary: a) simp_all

lemma sum_list_pos_nonneg: "list_all (\<lambda>x. 0 < x) xs \<Longrightarrow> 0 \<le> sum_list (xs :: real list)"
  by (induction xs) simp_all

lemma calibInv_beginSession: "calibInv (beginSession q)"
  by (simp add: calibInv_def beginSession_def resetRefs_def page_defs Let_def)

lemma calibrate_maxEar: "maxEarRef (calibrate curEar now p) = max (maxEarRef p) curEar"
  by (simp add: calibrate_def dispatch_def emit_def Let_def)

lemma calibrate_openSamples:
  "openSamplesRef (calibrate curEar now p) =
     openSamplesRef p @ (if curEar > max (maxEarRef p) curEar * 0.8 then [curEar] else [])"
  by (simp add: calibrate_def dispatch_def emit_def Let_def)

lemma calibrate_baseline:
  "baselineEarRef (calibrate curEar now p) =
     (if now - (case calibStartRef p of None \<Rightarrow> now | Some c \<Rightarrow> c) \<ge> CALIBRATION_MS
      then Some (if openSamplesRef (calibrate curEar now p) = []
                 then maxEarRef (calibrate curEar now p)
                 else sum_list (openSamplesRef (calibrate curEar now p)) /
                      real (length (openSamplesRef (calibrate curEar now p))))
      else baselineEarRef p)"
  by (simp add: calibrate_def dispatch_def emit_def Let_def foldl_plus_sum_list)

lemma calibInv_calibrate:
  assumes "calibInv p" "baselineEarRef p = None"
  shows "calibInv (calibrate curEar now p)"
proof -
  let ?p' = "calibrate curEar now p"
  have m: "0 \<le> maxEarRef ?p'"
    using assms by (simp add: calibrate_maxEar calibInv_def le_max_iff_disj)
  have pos: "max (maxEarRef p) curEar * 0.8 < curEar \<Longrightarrow> 0 < curEar"
    using m by (simp add: calibrate_maxEar)
  have s: "list_all (\<lambda>x. 0 < x) (openSamplesRef ?p')"
    using assms pos by (simp add: calibrate_openSamples calibInv_def)
  have "0 \<le> sum_list (openSamplesRef ?p') / real (length (openSamplesRef ?p'))"
    using sum_list_pos_nonneg[OF s] by (simp add: divide_nonneg_nonneg)
  then have b: "case baselineEarRef ?p' of None \<Rightarrow> True | Some b \<Rightarrow> 0 \<le> b"
    using m assms(2) by (subst calibrate_baseline) simp
  show ?thesis using m s b by (simp add: calibInv_def)
qed

lemma calibInv_frame_set:
  assumes "baselineEarRef p = Some b"
  shows "calibInv (onEar curEar now p) = calibInv p"
  using assms by (simp add: calibInv_def page_defs Let_def)

lemma calibInv_tick: "calibInv (monitorTick r b now p) = calibInv p"
  by (simp add: calibInv_def page_defs Let_def)

lemma calibInv_step: "calibInv p \<Longrightarrow> calibInv (step r p e)"
proof (cases e)
  case (Frame curEar now)
  assume "calibInv p"
  then show ?thesis using Frame calibInv_calibrate calibInv_frame_set
    by (cases "baselineEarRef p") (simp_all add: onEar_def)
next
  case (Tick now b)
  assume "calibInv p"
  then show ?thesis using Tick by (simp add: calibInv_tick)
qed

lemma calibInv_run: "calibInv p \<Longrightarrow> calibInv (run r p es)"
  by (induction es arbitrary: p) (simp_all add: run_Nil run_Cons calibInv_step)

lemma bsm_effects:
  "effects (blinkStateMachine b curEar now p) = effects p @
     (if eyeStateRef p = CLOSED \<and> curEar > b * OPEN_RATIO \<and>
         MIN_CLOSED_FRAMES \<le> closedFramesRef p + (if curEar < b * CLOSE_RATIO then 1 else 0) \<and>
         MIN_BLINK_GAP_MS \<le> now - lastBlinkMsRef p
      then [Dispatch (SET_BLINKS (blinkCountRef p + 1)), Dispatch (SET_SECONDS 0), Dispatch ALERT_OFF]
      else [])"
  by (cases "eyeStateRef p") (simp_all add: page_defs Let_def)

lemma thresholds_ordered: "0 \<le> b \<Longrightarrow> b * OPEN_RATIO < curEar \<Longrightarrow> \<not> curEar < b * CLOSE_RATIO"
proof -
  assume "0 \<le> b" "b * OPEN_RATIO < curEar"
  moreover have "b * CLOSE_RATIO \<le> b * OPEN_RATIO"
    using \<open>0 \<le> b\<close> by (simp add: CLOSE_RATIO_def OPEN_RATIO_def)
  ultimately show ?thesis by linarith
qed

lemma bsm_effects_nonneg:
  assumes "0 \<le> b"
  shows "effects (blinkStateMachine b curEar now p) = effects p @
     (if blinkQualifies b curEar now p
      then [Dispatch (SET_BLINKS (blinkCountRef p + 1)), Dispatch (SET_SECONDS 0), Dispatch ALERT_OFF]
      else [])"
  using thresholds_ordered[OF assms, of curEar]
  by (auto simp add: bsm_effects blinkQualifies_def)

lemma updateBpm_effects:
  "\<exists>bpm. effects (updateBpm now p) = effects p @ bpm \<and> set bpm \<subseteq> range (\<lambda>x. Dispatch (SET_BPM x))"
  by (auto simp add: page_defs Let_def)

lemma bsm_lastBpm: "lastBpmUpdateRef (blinkStateMachine b curEar now p) = lastBpmUpdateRef p"
  by (simp add: page_defs Let_def)

lemma onEar_set_effects:
  assumes "baselineEarRef p = Some b" "0 \<le> b"
  shows "\<exists>bpm. emitted p (onEar curEar now p) =
     (if blinkQualifies b curEar now p
      then [Dispatch (SET_BLINKS (blinkCountRef p + 1)), Dispatch (SET_SECONDS 0), Dispatch ALERT_OFF]
      else []) @ bpm \<and> set bpm \<subseteq> range (\<lambda>x. Dispatch (SET_BPM x))"
proof -
  obtain bpm where b: "effects (updateBpm now (blinkStateMachine b curEar now p)) =
      effects (blinkStateMachine b curEar now p) @ bpm" "set bpm \<subseteq> range (\<lambda>x. Dispatch (SET_BPM x))"
    using updateBpm_effects by blast
  show ?thesis
    using assms b by (simp add: emitted_def onEar_def bsm_effects_nonneg)
qed


subsection \<open>Properties of the geometry\<close>

lemma rne_cases: "rne y = \<lfloor>y\<rfloor> \<or> rne y = \<lfloor>y\<rfloor> + 1"
  by (simp add: rne_def Let_def)

lemma rne_err: "\<bar>of_int (rne y) - y\<bar> \<le> 1 / 2"
proof -
  have "of_int \<lfloor>y\<rfloor> \<le> y" "y < of_int \<lfloor>y\<rfloor> + 1" by linarith+
  then show ?thesis by (auto simp add: rne_def Let_def)
qed

lemma rne_nonneg: "0 \<le> y \<Longrightarrow> 0 \<le> rne y"
proof -
  assume "0 \<le> y"
  then have "0 \<le> \<lfloor>y\<rfloor>" by simp
  then show ?thesis using rne_cases[of y] by auto
qed

lemma rne_of_int: "rne (of_int k) = k"
  by (simp add: rne_def Let_def)

lemma quantum_pos: "0 < quantum x"
  by (simp add: quantum_def)

lemma quantum_le:
  assumes "x \<noteq> 0"
  shows "quantum x \<le> max (\<bar>x\<bar> / 2 powr 52) (2 powr (- 1074))"
proof -
  define e where "e = \<lfloor>log 2 \<bar>x\<bar>\<rfloor>"
  have q: "quantum x = 2 powr of_int (max e (- 1022) - 52)"
    by (simp only: quantum_def e_def)
  show ?thesis
  proof (cases "- 1022 \<le> e")
    case True
    then have "max e (- 1022) = e" by simp
    then have "quantum x = 2 powr (of_int e - 52)"
      by (simp add: q)
    also have "\<dots> \<le> 2 powr (log 2 \<bar>x\<bar> - 52)"
      unfolding e_def by (rule powr_mono) simp_all
    also have "\<dots> = \<bar>x\<bar> / 2 powr 52"
      using assms by (simp only: powr_diff) simp
    finally show ?thesis by simp
  next
    case False
    then have "max e (- 1022) = - 1022" by simp
    then have "quantum x = 2 powr (- 1074)"
      by (simp add: q)
    then show ?thesis by simp
  qed
qed

lemma small_powr: "(2::real) powr (- 1074) \<le> 1 / 2 ^ 31" "1 \<le> (2::real) powr 52"
proof -
  have "(2::real) powr (- 1074) \<le> 2 powr (- 31)"
    by (rule powr_mono) simp_all
  also have "\<dots> = 1 / 2 ^ 31"
    by (simp add: powr_minus_divide)
  finally show "(2::real) powr (- 1074) \<le> 1 / 2 ^ 31" .
  have "(2::real) powr 0 \<le> 2 powr 52"
    by (rule powr_mono) simp_all
  then show "1 \<le> (2::real) powr 52" by simp
qed

lemma rounded_err: "x \<noteq> 0 \<Longrightarrow> \<bar>rounded x - x\<bar> \<le> \<bar>x\<bar> / 2 + 1 / 2 ^ 31"
proof -
  assume nz: "x \<noteq> 0"
  let ?q = "quantum x"
  have qp: "0 < ?q" by (rule quantum_pos)
  have "rounded x - x = ?q * (of_int (rne (x / ?q)) - x / ?q)"
    using qp by (simp add: rounded_def algebra_simps)
  then have "\<bar>rounded x - x\<bar> = ?q * \<bar>of_int (rne (x / ?q)) - x / ?q\<bar>"
    using qp by (simp add: abs_mult)
  also have "\<dots> \<le> ?q * (1 / 2)"
    using qp rne_err[of "x / ?q"] by (intro mult_left_mono) simp_all
  finally have e: "\<bar>rounded x - x\<bar> \<le> ?q / 2" by simp
  have "\<bar>x\<bar> / 2 powr 52 \<le> \<bar>x\<bar>"
    using small_powr(2) by (simp add: divide_le_eq mult_le_cancel_left1)
  then have "?q \<le> \<bar>x\<bar> + 1 / 2 ^ 31"
    using quantum_le[OF nz] small_powr(1) by (auto simp add: max_def split: if_splits)
  then have "?q / 2 \<le> \<bar>x\<bar> / 2 + 1 / 2 ^ 31"
    by simp
  then show ?thesis using e by (rule order_trans[rotated])
qed

lemma rounded_nonneg: "0 \<le> x \<Longrightarrow> 0 \<le> rounded x"
  using quantum_pos[of x] rne_nonneg[of "x / quantum x"]
  by (simp add: rounded_def)

lemma fl_cases:
  "fl x = (if x = 0 then Fin 0
           else if 2 ^ 1024 \<le> \<bar>rounded x\<bar> then (if 0 < x then PInf else NInf)
           else Fin (rounded x))"
  by (simp add: fl_def rounded_def Let_def)

lemma fl_nonneg: "0 \<le> x \<Longrightarrow> fl x = Fin r \<Longrightarrow> 0 \<le> r"
  using rounded_nonneg[of x] by (auto simp add: fl_cases split: if_splits)

lemma fl_nonneg_cases: "0 \<le> x \<Longrightarrow> (\<exists>r. fl x = Fin r \<and> 0 \<le> r) \<or> fl x = PInf"
  using rounded_nonneg[of x] by (auto simp add: fl_cases)

lemma fl_not_NaN: "fl x \<noteq> NaN"
  by (simp add: fl_cases)

lemma fl_close:
  assumes "\<bar>x\<bar> \<le> 2 ^ 1022"
  shows "\<exists>r. fl x = Fin r \<and> \<bar>r - x\<bar> \<le> \<bar>x\<bar> / 2 + 1 / 2 ^ 31 \<and> (0 \<le> x \<longrightarrow> 0 \<le> r)"
proof (cases "x = 0")
  case True
  then show ?thesis by (simp add: fl_cases)
next
  case False
  note e = rounded_err[OF False]
  have "\<bar>rounded x\<bar> \<le> \<bar>x\<bar> + \<bar>rounded x - x\<bar>" by linarith
  also have "\<dots> \<le> 3 / 2 * 2 ^ 1022 + 1 / 2 ^ 31" using e assms by linarith
  also have "\<dots> < 2 ^ 1024" by simp
  finally have "\<not> 2 ^ 1024 \<le> \<bar>rounded x\<bar>" by simp
  then have "fl x = Fin (rounded x)" using False by (simp add: fl_cases)
  then show ?thesis using e rounded_nonneg[of x] by simp
qed

lemma rounded_pow2:
  assumes "- 1022 \<le> k"
  shows "rounded (2 powr of_int k) = 2 powr of_int k"
proof -
  let ?x = "(2::real) powr of_int k"
  have "\<lfloor>log 2 \<bar>?x\<bar>\<rfloor> = k" by simp
  then have "max \<lfloor>log 2 \<bar>?x\<bar>\<rfloor> (- 1022) = k" using assms by simp
  then have q: "quantum ?x = 2 powr (of_int k - 52)"
    by (simp add: quantum_def)
  have "?x / quantum ?x = 2 powr 52"
    unfolding q by (simp only: powr_diff[symmetric]) simp
  also have "\<dots> = of_int (2 ^ 52)"
    by (simp add: powr_numeral)
  finally have "rne (?x / quantum ?x) = 2 ^ 52"
    by (simp only: rne_of_int)
  then have "rounded ?x = 2 powr (of_int k - 52) * 2 powr 52"
    by (simp add: rounded_def q powr_numeral)
  also have "\<dots> = ?x"
    by (simp only: powr_add[symmetric]) simp
  finally show ?thesis .
qed

lemma two_1024: "(2::real) ^ 1024 = 2 powr of_int 1024"
  by (simp add: powr_numeral)

lemma fl_pow2:
  "- 1022 \<le> k \<Longrightarrow> k < 1024 \<Longrightarrow> fl (2 powr of_int k) = Fin (2 powr of_int k)"
  "1024 \<le> k \<Longrightarrow> fl (2 powr of_int k) = PInf"
proof -
  show "- 1022 \<le> k \<Longrightarrow> k < 1024 \<Longrightarrow> fl (2 powr of_int k) = Fin (2 powr of_int k)"
  proof -
    assume a: "- 1022 \<le> k" "k < 1024"
    have "\<not> (2::real) powr of_int 1024 \<le> 2 powr of_int k"
      using a(2) by (simp only: powr_le_cancel_iff)
    then show ?thesis
      by (simp only: fl_cases rounded_pow2[OF a(1)] two_1024) simp
  qed
  show "1024 \<le> k \<Longrightarrow> fl (2 powr of_int k) = PInf"
  proof -
    assume a: "1024 \<le> k"
    then have k: "- 1022 \<le> k" by simp
    have "(2::real) powr of_int 1024 \<le> 2 powr of_int k"
      using a by (simp only: powr_le_cancel_iff)
    then show ?thesis
      by (simp only: fl_cases rounded_pow2[OF k] two_1024) simp
  qed
qed

lemma epsilon: "\<exists>e. fl (1 / 1000000) = Fin e \<and> 1 / 2 ^ 21 \<le> e \<and> e \<le> 1 / 2 ^ 19"
proof -
  have "\<bar>1 / 1000000 :: real\<bar> \<le> 2 ^ 1022" by simp
  from fl_close[OF this] obtain e where e: "fl (1 / 1000000) = Fin e"
      "\<bar>e - 1 / 1000000\<bar> \<le> \<bar>1 / 1000000\<bar> / 2 + 1 / 2 ^ 31" by blast
  have "e - 1 / 1000000 \<le> 1 / 1000000 / 2 + 1 / 2 ^ 31"
       "1 / 1000000 - e \<le> 1 / 1000000 / 2 + 1 / 2 ^ 31"
    using e(2) by linarith+
  then have "1 / 2 ^ 21 \<le> e \<and> e \<le> 1 / 2 ^ 19" by simp
  then show ?thesis using e(1) by blast
qed

lemma fl_nonnegOrInf: "0 \<le> x \<Longrightarrow> nonnegOrInf (fl x)"
  using fl_nonneg_cases[of x] by auto

lemma fl_shape: "(\<exists>r. fl x = Fin r) \<or> fl x = PInf \<or> fl x = NInf"
  by (simp add: fl_cases)

lemma hypot_nonnegOrInf: "nonnegOrInf (hypot (fl x) (fl y))"
proof -
  have "\<And>u v. nonnegOrInf (hypot (Fin u) (Fin v))"
    by (simp add: fl_nonnegOrInf)
  then show ?thesis
    using fl_shape[of x] fl_shape[of y] by (elim disjE exE) simp_all
qed

lemma dist_pt_nonnegOrInf: "nonnegOrInf (dist_pt a b)"
  by (simp add: dist_pt_def hypot_nonnegOrInf)

lemma add_nonnegOrInf: "nonnegOrInf a \<Longrightarrow> nonnegOrInf b \<Longrightarrow> nonnegOrInf (js_add a b)"
  by (cases a; cases b) (simp_all add: fl_nonnegOrInf)

lemma double_nonnegOrInf: "nonnegOrInf a \<Longrightarrow> nonnegOrInf (js_mul (Fin 2) a)"
  by (cases a) (simp_all add: fl_nonnegOrInf signedInf_def)

lemma fl_le_pow:
  assumes "\<bar>x\<bar> \<le> 2 ^ n" "n \<le> 1022"
  shows "\<exists>r. fl x = Fin r \<and> \<bar>r\<bar> \<le> 2 ^ (n + 1) \<and> (0 \<le> x \<longrightarrow> 0 \<le> r)"
proof -
  have "(2::real) ^ n \<le> 2 ^ 1022"
    using assms(2) by (intro power_increasing) simp_all
  then have "\<bar>x\<bar> \<le> 2 ^ 1022" using assms(1) by linarith
  from fl_close[OF this] obtain r where r: "fl x = Fin r"
      "\<bar>r - x\<bar> \<le> \<bar>x\<bar> / 2 + 1 / 2 ^ 31" "0 \<le> x \<longrightarrow> 0 \<le> r" by blast
  have one: "(1::real) \<le> 2 ^ n" by simp
  have "(1::real) / 2 ^ 31 \<le> 1 / 2" by simp
  then have "\<bar>r\<bar> \<le> 2 * 2 ^ n" using r(2) assms(1) one by linarith
  then show ?thesis using r(1,3) by simp
qed

lemma dist_pt_in_range:
  assumes "inRange a" "inRange b"
  shows "\<exists>h. dist_pt a b = Fin h \<and> 0 \<le> h \<and> h \<le> 2 ^ 994"
proof -
  have two: "(2::real) ^ 991 = 2 * 2 ^ 990" by simp
  have "\<bar>px a - px b\<bar> \<le> 2 ^ 991" "\<bar>py a - py b\<bar> \<le> 2 ^ 991"
    using assms unfolding inRange_def two by linarith+
  then obtain dx dy where d: "fl (px a - px b) = Fin dx" "\<bar>dx\<bar> \<le> 2 ^ 992"
      "fl (py a - py b) = Fin dy" "\<bar>dy\<bar> \<le> 2 ^ 992"
    using fl_le_pow[of "px a - px b" 991] fl_le_pow[of "py a - py b" 991] by auto
  have "sqrt (dx\<^sup>2 + dy\<^sup>2) \<le> \<bar>dx\<bar> + \<bar>dy\<bar>"
    by (rule sqrt_sum_squares_le_sum_abs)
  then have "\<bar>sqrt (dx\<^sup>2 + dy\<^sup>2)\<bar> \<le> 2 ^ 993"
    using d(2,4) by simp
  then obtain h where h: "fl (sqrt (dx\<^sup>2 + dy\<^sup>2)) = Fin h" "\<bar>h\<bar> \<le> 2 ^ 994" "0 \<le> h"
    using fl_le_pow[of "sqrt (dx\<^sup>2 + dy\<^sup>2)" 993] by auto
  then show ?thesis using d(1,3) by (simp add: dist_pt_def)
qed

lemma dist_pt_same: "dist_pt a a = Fin 0"
  by (simp add: dist_pt_def fl_cases)

lemma ear_guard:
  "js_le (js_mul (Fin 2) (dist_pt p1 p4)) (fl (1 / 1000000)) \<Longrightarrow> ear p1 p2 p3 p4 p5 p6 = Fin 0"
  by (simp add: ear_def Let_def)

lemma ear_coincide: "ear p1 p2 p3 p1 p5 p6 = Fin 0"
proof -
  obtain e where e: "fl (1 / 1000000) = Fin e" "0 \<le> e"
    using epsilon by fastforce
  have "js_mul (Fin 2) (dist_pt p1 p1) = Fin 0"
    by (simp add: dist_pt_same fl_cases)
  then show ?thesis using e by (simp add: ear_def Let_def)
qed

lemma ear_finite_in_range:
  assumes "inRange p1" "inRange p2" "inRange p3" "inRange p4" "inRange p5" "inRange p6"
  shows "\<exists>r. ear p1 p2 p3 p4 p5 p6 = Fin r \<and> 0 \<le> r"
proof -
  obtain e where e: "fl (1 / 1000000) = Fin e" "1 / 2 ^ 21 \<le> e"
    using epsilon by blast
  obtain h where h: "dist_pt p1 p4 = Fin h" "0 \<le> h" "h \<le> 2 ^ 994"
    using dist_pt_in_range[OF assms(1,4)] by blast
  obtain h2 where h2: "dist_pt p2 p6 = Fin h2" "0 \<le> h2" "h2 \<le> 2 ^ 994"
    using dist_pt_in_range[OF assms(2,6)] by blast
  obtain h3 where h3: "dist_pt p3 p5 = Fin h3" "0 \<le> h3" "h3 \<le> 2 ^ 994"
    using dist_pt_in_range[OF assms(3,5)] by blast
  have "\<bar>2 * h\<bar> \<le> 2 ^ 995" using h(2,3) by simp
  then obtain d where d: "fl (2 * h) = Fin d" "0 \<le> d"
    using fl_le_pow[of "2 * h" 995] h(2) by auto
  have "\<bar>h2 + h3\<bar> \<le> 2 ^ 995" using h2(2,3) h3(2,3) by simp
  then obtain n where n: "fl (h2 + h3) = Fin n" "\<bar>n\<bar> \<le> 2 ^ 996" "0 \<le> n"
    using fl_le_pow[of "h2 + h3" 995] h2(2) h3(2) by auto
  show ?thesis
  proof (cases "d \<le> e")
    case True
    then show ?thesis using h(1) d(1) e(1) by (simp add: ear_def Let_def)
  next
    case False
    then have dpos: "1 / 2 ^ 21 < d" using e(2) by linarith
    then have d0: "0 < d" by (simp add: less_le_trans[rotated])
    have "n / d \<le> n / (1 / 2 ^ 21)"
      using dpos n(3) by (intro divide_left_mono) simp_all
    also have "\<dots> = n * 2 ^ 21" by simp
    also have "\<dots> \<le> 2 ^ 996 * 2 ^ 21" using n(2) by simp
    also have "\<dots> = (2::real) ^ 1017" by simp
    finally have "n / d \<le> 2 ^ 1017" .
    moreover have "0 \<le> n / d" using n(3) d0 by simp
    ultimately have "\<bar>n / d\<bar> \<le> 2 ^ 1017" by simp
    then obtain r where r: "fl (n / d) = Fin r" "0 \<le> r"
      using fl_le_pow[of "n / d" 1017] \<open>0 \<le> n / d\<close> by auto
    have "ear p1 p2 p3 p4 p5 p6 = fl (n / d)"
      using False d0 by (simp add: ear_def Let_def h(1) h2(1) h3(1) d(1) n(1) e(1))
    then show ?thesis using r by simp
  qed
qed

lemma fl_pow2_nat: "n < 1024 \<Longrightarrow> fl (2 ^ n) = Fin (2 ^ n)"
  using fl_pow2(1)[of "int n"] by (simp add: powr_realpow)

lemma fl_pow2_inf: "1024 \<le> n \<Longrightarrow> fl (2 ^ n) = PInf"
  using fl_pow2(2)[of "int n"] by (simp add: powr_realpow)

lemma fl_pow2_neg: "n \<le> 1022 \<Longrightarrow> fl (1 / 2 ^ n) = Fin (1 / 2 ^ n)"
  using fl_pow2(1)[of "- int n"] by (simp add: powr_minus powr_realpow divide_inverse)

lemma dist_onX: "0 \<le> x \<Longrightarrow> dist_pt (onX x) origin = (case fl x of Fin r \<Rightarrow> fl \<bar>r\<bar> | _ \<Rightarrow> PInf)"
  by (simp add: dist_pt_def onX_def origin_def fl_cases split: jsnum.splits)

lemma dist_onY: "dist_pt (onY y) origin = (case fl y of Fin r \<Rightarrow> fl \<bar>r\<bar> | _ \<Rightarrow> PInf)"
  by (simp add: dist_pt_def onY_def origin_def fl_cases split: jsnum.splits)

lemma dist_origin: "dist_pt origin origin = Fin 0"
  by (rule dist_pt_same)

lemma dist_pow_X: "n < 1024 \<Longrightarrow> dist_pt (onX (2 ^ n)) origin = Fin (2 ^ n)"
  by (simp add: dist_onX fl_pow2_nat)

lemma dist_pow_Y: "n < 1024 \<Longrightarrow> dist_pt (onY (2 ^ n)) origin = Fin (2 ^ n)"
  by (simp add: dist_onY fl_pow2_nat)

lemma dist_negpow_X: "n \<le> 1022 \<Longrightarrow> dist_pt (onX (1 / 2 ^ n)) origin = Fin (1 / 2 ^ n)"
  by (simp add: dist_onX fl_pow2_neg)

lemma ear_one:
  "ear (onX 1) (onY 1) (onY 1) origin origin origin = Fin 1"
proof -
  obtain e where e: "fl (1 / 1000000) = Fin e" "e \<le> 1 / 2 ^ 19"
    using epsilon by blast
  have d: "dist_pt (onX 1) origin = Fin 1" using dist_pow_X[of 0] by simp
  have m: "js_mul (Fin 2) (Fin 1) = Fin 2" using fl_pow2_nat[of 1] by simp
  have n: "dist_pt (onY 1) origin = Fin 1" using dist_pow_Y[of 0] by simp
  have a: "js_add (Fin 1) (Fin 1) = Fin 2" using fl_pow2_nat[of 1] by simp
  have q: "js_div (Fin 2) (Fin 2) = Fin 1" using fl_pow2_nat[of 0] by simp
  have g: "\<not> js_le (Fin 2) (Fin e)" using e(2) by simp
  show ?thesis
    unfolding ear_def Let_def d m e(1) n a q using g by simp
qed

lemma div_notNegative:
  assumes "nonnegOrInf n" "nonnegOrInf d" "\<not> js_le d (Fin e)" "0 \<le> e"
  shows "notNegative (js_div n d)"
proof (cases d)
  case (Fin y)
  then have y: "0 < y" using assms(3,4) by simp
  show ?thesis
  proof (cases n)
    case (Fin x)
    then have "0 \<le> x / y" using assms(1) y by simp
    then have "notNegative (fl (x / y))"
      using fl_nonneg_cases[of "x / y"] by auto
    then show ?thesis using Fin \<open>d = Fin y\<close> y by simp
  qed (use assms Fin y in simp_all)
next
  case PInf
  then show ?thesis using assms by (cases n) simp_all
qed (use assms in simp_all)

text \<open>Whatever the six points are, the ratio is not below zero.\<close>

lemma ear_notNegative: "notNegative (ear p1 p2 p3 p4 p5 p6)"
proof -
  obtain e where e: "fl (1 / 1000000) = Fin e" "0 \<le> e"
    using epsilon by fastforce
  let ?d = "js_mul (Fin 2) (dist_pt p1 p4)"
  let ?n = "js_add (dist_pt p2 p6) (dist_pt p3 p5)"
  show ?thesis
  proof (cases "js_le ?d (fl (1 / 1000000))")
    case True
    then show ?thesis by (simp add: ear_def Let_def)
  next
    case False
    have "nonnegOrInf ?n"
      by (intro add_nonnegOrInf dist_pt_nonnegOrInf)
    moreover have "nonnegOrInf ?d"
      by (intro double_nonnegOrInf dist_pt_nonnegOrInf)
    ultimately have "notNegative (js_div ?n ?d)"
      using div_notNegative[of ?n ?d e] False e by simp
    then show ?thesis using False by (simp add: ear_def Let_def)
  qed
qed

lemma ear_Fin_nonneg: "ear p1 p2 p3 p4 p5 p6 = Fin r \<Longrightarrow> 0 \<le> r"
  using ear_notNegative[of p1 p2 p3 p4 p5 p6] by simp

lemma earAt_notNegative: "earAt lm i1 i2 i3 i4 i5 i6 = Inr c \<Longrightarrow> notNegative c"
  using ear_notNegative
  by (auto simp add: earAt_def split: sum.splits if_splits)

lemma half_notNegative: "notNegative a \<Longrightarrow> notNegative (js_div a (Fin 2))"
proof (cases a)
  case (Fin x)
  assume "notNegative a"
  then have "0 \<le> x / 2" using Fin by simp
  then have "notNegative (fl (x / 2))"
    using fl_nonneg_cases[of "x / 2"] by auto
  then show ?thesis using Fin by simp
qed simp_all

lemma add_notNegative: "notNegative a \<Longrightarrow> notNegative b \<Longrightarrow> notNegative (js_add a b)"
proof (cases a; cases b)
  fix x y
  assume "notNegative a" "notNegative b" "a = Fin x" "b = Fin y"
  then have "0 \<le> x + y" by simp
  then have "notNegative (fl (x + y))"
    using fl_nonneg_cases[of "x + y"] by auto
  then show "notNegative (js_add a b)" using \<open>a = Fin x\<close> \<open>b = Fin y\<close> by simp
qed simp_all

text \<open>So the score a frame hands to the state machine is never negative.\<close>

lemma curEarOf_notNegative:
  assumes "curEarOf lm = Inr c"
  shows "notNegative c"
proof (cases "earAt lm 33 160 159 133 145 144")
  case (Inl e)
  then show ?thesis using assms by (simp add: curEarOf_def)
next
  case l: (Inr left)
  show ?thesis
  proof (cases "earAt lm 362 387 386 263 374 373")
    case (Inl e)
    then show ?thesis using assms l by (simp add: curEarOf_def)
  next
    case r: (Inr right)
    have "c = js_div (js_add left right) (Fin 2)" using assms l r by (simp add: curEarOf_def)
    then show ?thesis
      using earAt_notNegative[OF l] earAt_notNegative[OF r]
      by (simp add: half_notNegative add_notNegative)
  qed
qed

lemma curEarOf_nonneg: "curEarOf lm = Inr (Fin c) \<Longrightarrow> 0 \<le> c"
  using curEarOf_notNegative[of lm "Fin c"] by simp

text \<open>A result with a face runs the callback on that face's score, when it is finite.\<close>

lemma onResults_face:
  "curEarOf lm = Inr (Fin curEar) \<Longrightarrow> onResults (lm # faces) now p = Inr (onEar curEar now p)"
  by (simp add: onResults_def)

lemma onResults_no_face: "onResults [] now p = Inr p"
  by (simp add: onResults_def)

lemma pow2_isDouble: "n < 1024 \<Longrightarrow> isDouble (2 ^ n)" "n \<le> 1022 \<Longrightarrow> isDouble (1 / 2 ^ n)"
  by (simp_all add: isDouble_def fl_pow2_nat fl_pow2_neg)

lemma inRange_axes: "inRange origin" "\<bar>x\<bar> \<le> 2 ^ 990 \<Longrightarrow> inRange (onX x)"
    "\<bar>x\<bar> \<le> 2 ^ 990 \<Longrightarrow> inRange (onY x)"
  by (simp_all add: inRange_def origin_def onX_def onY_def)

text \<open>
  Claim C8, as stated, fails: finite coordinates are not enough. With \<open>p1\<close> at distance
  \<open>2 ^ -10\<close> from \<open>p4\<close> and \<open>p2\<close> at distance \<open>2 ^ 1020\<close> from \<open>p6\<close>, all of them
  doubles, the quotient overflows and \<open>ear\<close> returns \<^verbatim>\<open>Infinity\<close>; with the three
  distances \<open>2 ^ 1023\<close>, the denominator and the sum both overflow, and \<open>ear\<close> returns
  \<^verbatim>\<open>NaN\<close>.
\<close>

theorem ear_overflows:
  "isDouble 0 \<and> isDouble (1 / 2 ^ 10) \<and> isDouble (2 ^ 1020) \<and> isDouble (2 ^ 1023) \<and>
   ear (onX (1 / 2 ^ 10)) (onY (2 ^ 1020)) origin origin origin origin = PInf \<and>
   ear (onX (2 ^ 1023)) (onY (2 ^ 1023)) (onY (2 ^ 1023)) origin origin origin = NaN"
proof -
  obtain e where e: "fl (1 / 1000000) = Fin e" "e \<le> 1 / 2 ^ 19"
    using epsilon by blast
  have z: "isDouble 0" by (simp add: isDouble_def fl_cases)
  have d: "dist_pt (onX (1 / 2 ^ 10)) origin = Fin (1 / 2 ^ 10)"
    by (rule dist_negpow_X) simp
  have "2 * (1 / 2 ^ 10) = (1::real) / 2 ^ 9" by simp
  then have m: "js_mul (Fin 2) (Fin (1 / 2 ^ 10)) = Fin (1 / 2 ^ 9)"
    using fl_pow2_neg[of 9] by simp
  have g: "\<not> js_le (Fin (1 / 2 ^ 9)) (Fin e)"
    using e(2) by simp
  have n: "dist_pt (onY (2 ^ 1020)) origin = Fin (2 ^ 1020)"
    by (rule dist_pow_Y) simp
  have a: "js_add (Fin (2 ^ 1020)) (Fin 0) = Fin (2 ^ 1020)"
    using fl_pow2_nat[of 1020] by simp
  have "(2::real) ^ 1020 / (1 / 2 ^ 9) = 2 ^ 1029" by simp
  then have q: "js_div (Fin (2 ^ 1020)) (Fin (1 / 2 ^ 9)) = PInf"
    using fl_pow2_inf[of 1029] by simp
  have inf: "ear (onX (1 / 2 ^ 10)) (onY (2 ^ 1020)) origin origin origin origin = PInf"
    unfolding ear_def Let_def d m e(1) n dist_origin a q using g by simp
  have d': "dist_pt (onX (2 ^ 1023)) origin = Fin (2 ^ 1023)"
    by (rule dist_pow_X) simp
  have "2 * 2 ^ 1023 = (2::real) ^ 1024" by simp
  then have m': "js_mul (Fin 2) (Fin (2 ^ 1023)) = PInf"
    using fl_pow2_inf[of 1024] by simp
  have n': "dist_pt (onY (2 ^ 1023)) origin = Fin (2 ^ 1023)"
    by (rule dist_pow_Y) simp
  have "2 ^ 1023 + 2 ^ 1023 = (2::real) ^ 1024" by simp
  then have a': "js_add (Fin (2 ^ 1023)) (Fin (2 ^ 1023)) = PInf"
    using fl_pow2_inf[of 1024] by simp
  have nan: "ear (onX (2 ^ 1023)) (onY (2 ^ 1023)) (onY (2 ^ 1023)) origin origin origin = NaN"
    unfolding ear_def Let_def d' m' e(1) n' a' by simp
  have dbl: "isDouble (1 / 2 ^ 10)" "isDouble (2 ^ 1020)" "isDouble (2 ^ 1023)"
    by (simp_all only: pow2_isDouble) 
  show ?thesis using z dbl inf nan by blast
qed

text \<open>
  Claim C8, amended. For six points whose coordinates are at most \<open>2 ^ 990\<close> (about
  \<open>1e298\<close>) in size, \<open>ear\<close> returns a finite number that is not negative. For all six
  points, \<open>ear\<close> returns exactly 0 whenever the denominator \<open>2 * dist(p1, p4)\<close> is at
  most \<open>1e-6\<close>, in particular when \<open>p1\<close> and \<open>p4\<close> coincide, and what it returns is
  never below zero.
\<close>

theorem ear_in_range:
  "(inRange p1 \<and> inRange p2 \<and> inRange p3 \<and> inRange p4 \<and> inRange p5 \<and> inRange p6 \<longrightarrow>
      (\<exists>r. ear p1 p2 p3 p4 p5 p6 = Fin r \<and> 0 \<le> r)) \<and>
   (js_le (js_mul (Fin 2) (dist_pt p1 p4)) (fl (1 / 1000000)) \<longrightarrow>
      ear p1 p2 p3 p4 p5 p6 = Fin 0) \<and>
   ear p1 p2 p3 p1 p5 p6 = Fin 0 \<and>
   notNegative (ear p1 p2 p3 p4 p5 p6)"
  using ear_finite_in_range[of p1 p2 p3 p4 p5 p6] ear_guard[of p1 p4 p2 p3 p5 p6]
    ear_coincide[of p1 p2 p3 p5 p6] ear_notNegative[of p1 p2 p3 p4 p5 p6]
  by blast

theorem ear_in_range_witness:
  "inRange (onX 1) \<and> inRange (onY 1) \<and> inRange origin \<and>
   ear (onX 1) (onY 1) (onY 1) origin origin origin = Fin 1 \<and>
   js_le (js_mul (Fin 2) (dist_pt (onX (1 / 2 ^ 30)) origin)) (fl (1 / 1000000)) \<and>
   ear (onX (1 / 2 ^ 30)) (onY 1) (onY 1) origin origin origin = Fin 0"
proof -
  obtain e where e: "fl (1 / 1000000) = Fin e" "1 / 2 ^ 21 \<le> e"
    using epsilon by blast
  have r: "inRange (onX 1)" "inRange (onY 1)" "inRange origin"
    by (simp_all add: inRange_axes)
  have d: "dist_pt (onX (1 / 2 ^ 30)) origin = Fin (1 / 2 ^ 30)"
    by (rule dist_negpow_X) simp
  have "2 * (1 / 2 ^ 30) = (1::real) / 2 ^ 29" by simp
  then have m: "js_mul (Fin 2) (Fin (1 / 2 ^ 30)) = Fin (1 / 2 ^ 29)"
    using fl_pow2_neg[of 29] by simp
  have "(1::real) / 2 ^ 29 \<le> 1 / 2 ^ 21" by simp
  then have "(1::real) / 2 ^ 29 \<le> e" using e(2) by (rule order_trans)
  then have g: "js_le (js_mul (Fin 2) (dist_pt (onX (1 / 2 ^ 30)) origin)) (fl (1 / 1000000))"
    unfolding d m e(1) by simp
  show ?thesis
    using r g ear_one
      ear_in_range[of "onX 1" "onY 1" "onY 1" origin origin origin]
      ear_in_range[of "onX (1 / 2 ^ 30)" "onY 1" "onY 1" origin origin origin]
    by blast
qed


subsection \<open>The blink state machine\<close>

lemmas eval_defs = run_def beginSession_def resetRefs_def initialPage_def initialState_def page_defs Let_def
  CALIBRATION_MS_def CLOSE_RATIO_def OPEN_RATIO_def MIN_CLOSED_FRAMES_def MIN_BLINK_GAP_MS_def
  ALERT_REPEAT_MS_def BPM_UPDATE_MS_def NOTIF_COOLDOWN_MS_def

lemma bsm_fields:
  "blinkCountRef (blinkStateMachine b curEar now p) = blinkCountRef p +
     (if eyeStateRef p = CLOSED \<and> curEar > b * OPEN_RATIO \<and>
         MIN_CLOSED_FRAMES \<le> closedFramesRef p + (if curEar < b * CLOSE_RATIO then 1 else 0) \<and>
         MIN_BLINK_GAP_MS \<le> now - lastBlinkMsRef p then 1 else 0)"
  "lastBlinkMsRef (blinkStateMachine b curEar now p) =
     (if eyeStateRef p = CLOSED \<and> curEar > b * OPEN_RATIO \<and>
         MIN_CLOSED_FRAMES \<le> closedFramesRef p + (if curEar < b * CLOSE_RATIO then 1 else 0) \<and>
         MIN_BLINK_GAP_MS \<le> now - lastBlinkMsRef p then now else lastBlinkMsRef p)"
  "eyeStateRef p = CLOSED \<Longrightarrow> curEar > b * OPEN_RATIO \<Longrightarrow>
     eyeStateRef (blinkStateMachine b curEar now p) = OPEN \<and>
     closedFramesRef (blinkStateMachine b curEar now p) = 0"
  by (cases "eyeStateRef p"; simp add: page_defs Let_def)+

lemma updateBpm_fields:
  "blinkCountRef (updateBpm now p) = blinkCountRef p"
  "lastBlinkMsRef (updateBpm now p) = lastBlinkMsRef p"
  "eyeStateRef (updateBpm now p) = eyeStateRef p"
  "closedFramesRef (updateBpm now p) = closedFramesRef p"
  "lastBlinkAtRef (updateBpm now p) = lastBlinkAtRef p"
  "baselineEarRef (updateBpm now p) = baselineEarRef p"
  "secondsSinceBlink (uiState (updateBpm now p)) = secondsSinceBlink (uiState p)"
  "alertOn (uiState (updateBpm now p)) = alertOn (uiState p)"
  "blinks (uiState (updateBpm now p)) = blinks (uiState p)"
  "calibrating (uiState (updateBpm now p)) = calibrating (uiState p)"
  by (simp_all add: page_defs Let_def)

lemma bsm_closedFrames:
  "closedFramesRef (blinkStateMachine b curEar now p) =
     (if eyeStateRef (blinkStateMachine b curEar now p) = OPEN
      then (if eyeStateRef p = OPEN then closedFramesRef p else 0)
      else (if eyeStateRef p = OPEN then 1
            else closedFramesRef p + (if curEar < b * CLOSE_RATIO then 1 else 0)))"
  by (cases "eyeStateRef p") (simp_all add: page_defs Let_def)

lemma calibrate_eye:
  "eyeStateRef (calibrate curEar now p) = eyeStateRef p"
  "closedFramesRef (calibrate curEar now p) = closedFramesRef p"
  by (simp_all add: page_defs Let_def)

lemma tick_eye:
  "eyeStateRef (monitorTick r b now p) = eyeStateRef p"
  "closedFramesRef (monitorTick r b now p) = closedFramesRef p"
  by (simp_all add: page_defs Let_def)

lemma step_closedFrames:
  "closedFramesRef (step r p e) =
     (if eyeStateRef (step r p e) = OPEN
      then (if eyeStateRef p = OPEN then closedFramesRef p else 0)
      else closedFramesRef (step r p e))"
  "eyeStateRef p = CLOSED \<Longrightarrow> eyeStateRef (step r p e) = CLOSED \<Longrightarrow>
     closedFramesRef p \<le> closedFramesRef (step r p e)"
proof -
  show "closedFramesRef (step r p e) =
     (if eyeStateRef (step r p e) = OPEN
      then (if eyeStateRef p = OPEN then closedFramesRef p else 0)
      else closedFramesRef (step r p e))"
  proof (cases e)
    case (Frame curEar now)
    then show ?thesis
      by (cases "baselineEarRef p")
         (simp_all add: onEar_def calibrate_eye updateBpm_fields bsm_closedFrames)
  next
    case (Tick now b)
    then show ?thesis by (simp add: tick_eye)
  qed
  show "eyeStateRef p = CLOSED \<Longrightarrow> eyeStateRef (step r p e) = CLOSED \<Longrightarrow>
     closedFramesRef p \<le> closedFramesRef (step r p e)"
  proof (cases e)
    case (Frame curEar now)
    assume "eyeStateRef p = CLOSED" "eyeStateRef (step r p e) = CLOSED"
    then show ?thesis using Frame
      by (cases "baselineEarRef p")
         (simp_all add: onEar_def calibrate_eye updateBpm_fields bsm_closedFrames)
  next
    case (Tick now b)
    then show ?thesis by (simp add: tick_eye)
  qed
qed

lemma open_zero_run:
  "eyeStateRef p = OPEN \<longrightarrow> closedFramesRef p = 0 \<Longrightarrow>
   eyeStateRef (run r p es) = OPEN \<longrightarrow> closedFramesRef (run r p es) = 0"
proof (induction es arbitrary: p)
  case Nil
  then show ?case by (simp add: run_Nil)
next
  case (Cons e es)
  have "eyeStateRef (step r p e) = OPEN \<longrightarrow> closedFramesRef (step r p e) = 0"
    using Cons.prems step_closedFrames(1)[of r p e] by (auto split: if_splits)
  then show ?case using Cons.IH by (simp add: run_Cons)
qed

lemma beginSession_eye:
  "eyeStateRef (beginSession q) = OPEN" "closedFramesRef (beginSession q) = 0"
  by (simp_all add: beginSession_def resetRefs_def page_defs Let_def)

text \<open>
  Claim C1. In every page a session reaches with the baseline established, a frame emits
  a blink event (the dispatch of \<open>SET_BLINKS\<close>, with the blink counter and the time of
  the last blink updated) if and only if the eye state is \<open>CLOSED\<close>, the frame's EAR is
  above the open threshold, the closed frame count is at least \<open>MIN_CLOSED_FRAMES\<close> and
  at least \<open>MIN_BLINK_GAP_MS\<close> have passed since the last blink. Whenever the EAR is
  above the open threshold in \<open>CLOSED\<close>, qualified or not, the state returns to \<open>OPEN\<close>
  with the closed frame count 0.
\<close>

theorem blink_event_iff:
  assumes reach: "p = run r (beginSession q) es"
      and base: "baselineEarRef p = Some baseline"
  shows "((\<exists>n. Dispatch (SET_BLINKS n) \<in> set (emitted p (onEar curEar now p))) \<longleftrightarrow>
            blinkQualifies baseline curEar now p) \<and>
         blinkCountRef (onEar curEar now p) =
            blinkCountRef p + (if blinkQualifies baseline curEar now p then 1 else 0) \<and>
         lastBlinkMsRef (onEar curEar now p) =
            (if blinkQualifies baseline curEar now p then now else lastBlinkMsRef p) \<and>
         (eyeStateRef p = CLOSED \<and> curEar > baseline * OPEN_RATIO \<longrightarrow>
            eyeStateRef (onEar curEar now p) = OPEN \<and> closedFramesRef (onEar curEar now p) = 0)"
proof -
  have "calibInv p"
    using reach calibInv_run[OF calibInv_beginSession] by simp
  then have nn: "0 \<le> baseline"
    using base by (simp add: calibInv_def)
  obtain bpm where em: "emitted p (onEar curEar now p) =
     (if blinkQualifies baseline curEar now p
      then [Dispatch (SET_BLINKS (blinkCountRef p + 1)), Dispatch (SET_SECONDS 0), Dispatch ALERT_OFF]
      else []) @ bpm" and bpm: "set bpm \<subseteq> range (\<lambda>x. Dispatch (SET_BPM x))"
    using onEar_set_effects[OF base nn] by blast
  have a: "(\<exists>n. Dispatch (SET_BLINKS n) \<in> set (emitted p (onEar curEar now p))) \<longleftrightarrow>
            blinkQualifies baseline curEar now p"
    using bpm by (auto simp add: em)
  have ord: "baseline * OPEN_RATIO < curEar \<Longrightarrow> \<not> curEar < baseline * CLOSE_RATIO"
    using thresholds_ordered[OF nn] .
  have b: "blinkCountRef (onEar curEar now p) =
            blinkCountRef p + (if blinkQualifies baseline curEar now p then 1 else 0)"
    using ord by (auto simp add: onEar_def base updateBpm_fields bsm_fields blinkQualifies_def)
  have c: "lastBlinkMsRef (onEar curEar now p) =
            (if blinkQualifies baseline curEar now p then now else lastBlinkMsRef p)"
    using ord by (auto simp add: onEar_def base updateBpm_fields bsm_fields blinkQualifies_def)
  have d: "eyeStateRef p = CLOSED \<and> curEar > baseline * OPEN_RATIO \<longrightarrow>
            eyeStateRef (onEar curEar now p) = OPEN \<and> closedFramesRef (onEar curEar now p) = 0"
    by (simp add: onEar_def base updateBpm_fields bsm_fields)
  show ?thesis using a b c d by blast
qed

lemma closedTwice_fields:
  "baselineEarRef closedTwice = Some 0.30" "eyeStateRef closedTwice = CLOSED" "closedFramesRef closedTwice = 2"
  "lastBlinkMsRef closedTwice = 0" "blinkCountRef closedTwice = 0"
  by (simp_all add: closedTwice_def eval_defs)


lemma closedOnce_fields:
  "baselineEarRef closedOnce = Some 0.30" "eyeStateRef closedOnce = CLOSED" "closedFramesRef closedOnce = 1"
  "blinkCountRef closedOnce = 0"
  by (simp_all add: closedOnce_def eval_defs)

theorem blink_event_iff_witness:
  "baselineEarRef closedTwice = Some 0.30 \<and>
   blinkQualifies 0.30 0.28 3132 closedTwice \<and>
   (\<exists>n. Dispatch (SET_BLINKS n) \<in> set (emitted closedTwice (onEar 0.28 3132 closedTwice))) \<and>
   blinkCountRef (onEar 0.28 3132 closedTwice) = 1 \<and>
   lastBlinkMsRef (onEar 0.28 3132 closedTwice) = 3132 \<and>
   eyeStateRef (onEar 0.28 3132 closedTwice) = OPEN \<and>
   closedFramesRef (onEar 0.28 3132 closedTwice) = 0 \<and>
   baselineEarRef closedOnce = Some 0.30 \<and>
   \<not> blinkQualifies 0.30 0.28 3099 closedOnce \<and>
   \<not> (\<exists>n. Dispatch (SET_BLINKS n) \<in> set (emitted closedOnce (onEar 0.28 3099 closedOnce))) \<and>
   blinkCountRef (onEar 0.28 3099 closedOnce) = 0 \<and>
   eyeStateRef (onEar 0.28 3099 closedOnce) = OPEN \<and>
   closedFramesRef (onEar 0.28 3099 closedOnce) = 0"
proof -
  have q: "blinkQualifies 0.30 0.28 3132 closedTwice"
    by (simp add: blinkQualifies_def closedTwice_fields OPEN_RATIO_def MIN_CLOSED_FRAMES_def MIN_BLINK_GAP_MS_def)
  have nq: "\<not> blinkQualifies 0.30 0.28 3099 closedOnce"
    by (simp add: blinkQualifies_def closedOnce_fields MIN_CLOSED_FRAMES_def)
  have o: "(0.28::real) > 0.30 * OPEN_RATIO"
    by (simp add: OPEN_RATIO_def)
  note t2 = blink_event_iff[OF closedTwice_def closedTwice_fields(1), where curEar = "0.28" and now = 3132]
  note t1 = blink_event_iff[OF closedOnce_def closedOnce_fields(1), where curEar = "0.28" and now = 3099]
  have a2: "(\<exists>n. Dispatch (SET_BLINKS n) \<in> set (emitted closedTwice (onEar 0.28 3132 closedTwice))) \<and>
      blinkCountRef (onEar 0.28 3132 closedTwice) = 1 \<and>
      lastBlinkMsRef (onEar 0.28 3132 closedTwice) = 3132 \<and>
      eyeStateRef (onEar 0.28 3132 closedTwice) = OPEN \<and>
      closedFramesRef (onEar 0.28 3132 closedTwice) = 0"
    using t2 q o by (simp add: closedTwice_fields)
  have a1: "\<not> (\<exists>n. Dispatch (SET_BLINKS n) \<in> set (emitted closedOnce (onEar 0.28 3099 closedOnce))) \<and>
      blinkCountRef (onEar 0.28 3099 closedOnce) = 0 \<and>
      eyeStateRef (onEar 0.28 3099 closedOnce) = OPEN \<and>
      closedFramesRef (onEar 0.28 3099 closedOnce) = 0"
    using t1 nq o by (simp add: closedOnce_fields)
  show ?thesis
    using a1 a2 q nq closedTwice_fields(1) closedOnce_fields(1) by blast
qed

text \<open>
  Claim C7. In every page a session reaches, the closed frame count is 0 whenever the eye
  state is \<open>OPEN\<close>; it does not decrease over a step that leaves the eye state
  \<open>CLOSED\<close>; and it is 0 after every step that ends in \<open>OPEN\<close>.
\<close>

theorem closedFrames_invariant:
  assumes "p = run r (beginSession q) es"
  shows "(eyeStateRef p = OPEN \<longrightarrow> closedFramesRef p = 0) \<and>
         (eyeStateRef p = CLOSED \<and> eyeStateRef (step r p e) = CLOSED \<longrightarrow>
            closedFramesRef p \<le> closedFramesRef (step r p e)) \<and>
         (eyeStateRef (step r p e) = OPEN \<longrightarrow> closedFramesRef (step r p e) = 0)"
proof -
  have a: "eyeStateRef p = OPEN \<longrightarrow> closedFramesRef p = 0"
    using assms open_zero_run[of "beginSession q" r es] by (simp add: beginSession_eye)
  have c: "eyeStateRef (step r p e) = OPEN \<longrightarrow> closedFramesRef (step r p e) = 0"
    using a step_closedFrames(1)[of r p e] by (auto split: if_splits)
  show ?thesis using a c step_closedFrames(2)[of p r e] by blast
qed

lemma openAfterCalibration_fields:
  "baselineEarRef openAfterCalibration = Some 0.30" "eyeStateRef openAfterCalibration = OPEN"
  by (simp_all add: openAfterCalibration_def eval_defs)

theorem closedFrames_invariant_witness:
  "eyeStateRef openAfterCalibration = OPEN \<and> closedFramesRef openAfterCalibration = 0 \<and>
   eyeStateRef closedTwice = CLOSED \<and>
   eyeStateRef (step render5 closedTwice (Frame 0.10 3132)) = CLOSED \<and>
   closedFramesRef closedTwice \<le> closedFramesRef (step render5 closedTwice (Frame 0.10 3132)) \<and>
   closedFramesRef (step render5 closedTwice (Frame 0.10 3132)) = 3 \<and>
   eyeStateRef (step render5 closedTwice (Frame 0.28 3132)) = OPEN \<and>
   closedFramesRef (step render5 closedTwice (Frame 0.28 3132)) = 0"
proof -
  have o: "eyeStateRef openAfterCalibration = OPEN"
    by (rule openAfterCalibration_fields)
  have c: "eyeStateRef closedTwice = CLOSED"
    by (rule closedTwice_fields)
  have s1: "eyeStateRef (step render5 closedTwice (Frame 0.10 3132)) = CLOSED"
           "closedFramesRef (step render5 closedTwice (Frame 0.10 3132)) = 3"
    by (simp_all add: closedTwice_def eval_defs)
  have s2: "eyeStateRef (step render5 closedTwice (Frame 0.28 3132)) = OPEN"
    by (simp add: closedTwice_def eval_defs)
  show ?thesis
    using closedFrames_invariant[OF openAfterCalibration_def, where e = "Frame 0.10 3132"]
      closedFrames_invariant[OF closedTwice_def, where e = "Frame 0.10 3132"]
      closedFrames_invariant[OF closedTwice_def, where e = "Frame 0.28 3132"]
      o c s1 s2
    by simp
qed

lemma bsm_blink_fields:
  assumes "eyeStateRef p = CLOSED" "curEar > b * OPEN_RATIO"
    "MIN_CLOSED_FRAMES \<le> closedFramesRef p + (if curEar < b * CLOSE_RATIO then 1 else 0)"
    "MIN_BLINK_GAP_MS \<le> now - lastBlinkMsRef p"
  shows "lastBlinkAtRef (blinkStateMachine b curEar now p) = Some now"
    "secondsSinceBlink (uiState (blinkStateMachine b curEar now p)) = 0"
    "\<not> alertOn (uiState (blinkStateMachine b curEar now p))"
    "blinks (uiState (blinkStateMachine b curEar now p)) = blinkCountRef p + 1"
  using assms by (cases "curEar < b * CLOSE_RATIO"; simp add: page_defs Let_def)+

text \<open>
  Claim C6. Every blink event a frame emits raises the blink counter by exactly 1 (and
  publishes the new count), sets the time of the last blink to the frame's time, publishes
  0 seconds since the last blink and clears the alert flag, whatever these were before; in
  particular, where the published seconds were already 0 and the flag already cleared,
  they stay so.
\<close>

theorem blink_event_resets:
  assumes base: "baselineEarRef p = Some baseline"
      and ev: "Dispatch (SET_BLINKS n) \<in> set (emitted p (onEar curEar now p))"
  shows "n = blinkCountRef p + 1 \<and>
         blinkCountRef (onEar curEar now p) = blinkCountRef p + 1 \<and>
         blinks (uiState (onEar curEar now p)) = blinkCountRef p + 1 \<and>
         lastBlinkAtRef (onEar curEar now p) = Some now \<and>
         secondsSinceBlink (uiState (onEar curEar now p)) = 0 \<and>
         \<not> alertOn (uiState (onEar curEar now p)) \<and>
         (secondsSinceBlink (uiState p) = 0 \<and> \<not> alertOn (uiState p) \<longrightarrow>
            secondsSinceBlink (uiState (onEar curEar now p)) = secondsSinceBlink (uiState p) \<and>
            alertOn (uiState (onEar curEar now p)) = alertOn (uiState p))"
proof -
  let ?q = "blinkStateMachine baseline curEar now p"
  let ?c = "eyeStateRef p = CLOSED \<and> curEar > baseline * OPEN_RATIO \<and>
         MIN_CLOSED_FRAMES \<le> closedFramesRef p + (if curEar < baseline * CLOSE_RATIO then 1 else 0) \<and>
         MIN_BLINK_GAP_MS \<le> now - lastBlinkMsRef p"
  obtain bpm where b: "effects (updateBpm now ?q) = effects ?q @ bpm"
      "set bpm \<subseteq> range (\<lambda>x. Dispatch (SET_BPM x))"
    using updateBpm_effects by blast
  have em: "emitted p (onEar curEar now p) =
      (if ?c then [Dispatch (SET_BLINKS (blinkCountRef p + 1)), Dispatch (SET_SECONDS 0), Dispatch ALERT_OFF]
       else []) @ bpm"
    using b(1) by (simp add: emitted_def onEar_def base bsm_effects)
  have nb: "Dispatch (SET_BLINKS n) \<notin> set bpm"
    using b(2) by auto
  have c: ?c
    using ev nb unfolding em by (auto split: if_splits)
  have n: "n = blinkCountRef p + 1"
    using ev nb c unfolding em by auto
  have f: "blinkCountRef (onEar curEar now p) = blinkCountRef p + 1"
    "blinks (uiState (onEar curEar now p)) = blinkCountRef p + 1"
    "lastBlinkAtRef (onEar curEar now p) = Some now"
    "secondsSinceBlink (uiState (onEar curEar now p)) = 0"
    "\<not> alertOn (uiState (onEar curEar now p))"
    using c bsm_blink_fields[of p baseline curEar now]
    by (simp_all add: onEar_def base updateBpm_fields bsm_fields)
  show ?thesis using n f by simp
qed

theorem blink_event_resets_witness:
  "baselineEarRef closedTwice = Some 0.30 \<and>
   Dispatch (SET_BLINKS 1) \<in> set (emitted closedTwice (onEar 0.28 3132 closedTwice)) \<and>
   blinkCountRef closedTwice = 0 \<and>
   blinkCountRef (onEar 0.28 3132 closedTwice) = 1 \<and>
   blinks (uiState (onEar 0.28 3132 closedTwice)) = 1 \<and>
   lastBlinkAtRef (onEar 0.28 3132 closedTwice) = Some 3132 \<and>
   secondsSinceBlink (uiState closedTwice) = 0 \<and> \<not> alertOn (uiState closedTwice) \<and>
   secondsSinceBlink (uiState (onEar 0.28 3132 closedTwice)) = 0 \<and>
   \<not> alertOn (uiState (onEar 0.28 3132 closedTwice))"
proof -
  have ev: "Dispatch (SET_BLINKS 1) \<in> set (emitted closedTwice (onEar 0.28 3132 closedTwice))"
    by (simp add: emitted_def closedTwice_def eval_defs)
  have pre: "secondsSinceBlink (uiState closedTwice) = 0" "\<not> alertOn (uiState closedTwice)"
    by (simp_all add: closedTwice_def eval_defs)
  show ?thesis
    using blink_event_resets[OF closedTwice_fields(1) ev] ev pre
    by (simp add: closedTwice_fields)
qed

subsection \<open>Calibration\<close>

lemma calibrate_effects:
  "effects (calibrate curEar now p) = effects p @
     (if CALIBRATION_MS \<le> now - (case calibStartRef p of None \<Rightarrow> now | Some c \<Rightarrow> c)
      then [Dispatch CALIBRATION_DONE, Dispatch (SET_SECONDS 0), Dispatch ALERT_OFF] else [])"
  by (simp add: calibrate_def dispatch_def emit_def Let_def)

lemma calibrate_calibStart:
  "calibStartRef (calibrate curEar now p) =
     Some (case calibStartRef p of None \<Rightarrow> now | Some c \<Rightarrow> c)"
  by (simp add: calibrate_def dispatch_def emit_def Let_def)

lemma calibrate_ui:
  "CALIBRATION_MS \<le> now - (case calibStartRef p of None \<Rightarrow> now | Some c \<Rightarrow> c) \<Longrightarrow>
     \<not> calibrating (uiState (calibrate curEar now p)) \<and>
     \<not> alertOn (uiState (calibrate curEar now p)) \<and>
     secondsSinceBlink (uiState (calibrate curEar now p)) = 0 \<and>
     lastBlinkAtRef (calibrate curEar now p) = Some now"
  "\<not> CALIBRATION_MS \<le> now - (case calibStartRef p of None \<Rightarrow> now | Some c \<Rightarrow> c) \<Longrightarrow>
     uiState (calibrate curEar now p) = uiState p \<and>
     lastBlinkAtRef (calibrate curEar now p) = lastBlinkAtRef p"
  by (simp_all add: calibrate_def dispatch_def emit_def Let_def)

lemma bsm_calib_fields:
  "baselineEarRef (blinkStateMachine b curEar now p) = baselineEarRef p"
  "calibStartRef (blinkStateMachine b curEar now p) = calibStartRef p"
  "maxEarRef (blinkStateMachine b curEar now p) = maxEarRef p"
  "openSamplesRef (blinkStateMachine b curEar now p) = openSamplesRef p"
  by (cases "eyeStateRef p"; simp add: page_defs Let_def)+

lemma updateBpm_calib_fields:
  "calibStartRef (updateBpm now p) = calibStartRef p"
  "maxEarRef (updateBpm now p) = maxEarRef p"
  "openSamplesRef (updateBpm now p) = openSamplesRef p"
  by (simp_all add: page_defs Let_def)

lemma tick_calib_fields:
  "baselineEarRef (monitorTick r b now p) = baselineEarRef p"
  "calibStartRef (monitorTick r b now p) = calibStartRef p"
  "maxEarRef (monitorTick r b now p) = maxEarRef p"
  "openSamplesRef (monitorTick r b now p) = openSamplesRef p"
  by (simp_all add: page_defs Let_def)

lemma tick_effects:
  "\<exists>xs. effects (monitorTick r b now p) = effects p @ xs \<and> Dispatch CALIBRATION_DONE \<notin> set xs"
  by (simp add: page_defs Let_def)

lemma step_effects: "\<exists>xs. effects (step r p e) = effects p @ xs"
proof (cases e)
  case (Frame curEar now)
  show ?thesis
  proof (cases "baselineEarRef p")
    case None
    then show ?thesis using Frame by (simp add: onEar_def calibrate_effects)
  next
    case (Some b)
    then show ?thesis using Frame updateBpm_effects[of now "blinkStateMachine b curEar now p"]
      by (auto simp add: onEar_def bsm_effects)
  qed
next
  case (Tick now b)
  then show ?thesis using tick_effects[of r b now p] by auto
qed

lemma run_effects: "\<exists>xs. effects (run r p es) = effects p @ xs"
proof (induction es arbitrary: p)
  case Nil
  then show ?case by (simp add: run_Nil)
next
  case (Cons e es)
  obtain xs where "effects (step r p e) = effects p @ xs" using step_effects by blast
  moreover obtain ys where "effects (run r (step r p e) es) = effects (step r p e) @ ys"
    using Cons.IH by blast
  ultimately show ?case by (simp add: run_Cons)
qed

lemma emitted_self: "emitted p p = []"
  by (simp add: emitted_def)


lemma emitted_run_Cons:
  "emitted p (run r p (e # es)) = emitted p (step r p e) @ emitted (step r p e) (run r (step r p e) es)"
proof -
  obtain xs where x: "effects (step r p e) = effects p @ xs" using step_effects by blast
  obtain ys where y: "effects (run r (step r p e) es) = effects (step r p e) @ ys"
    using run_effects by blast
  show ?thesis using x y by (simp add: emitted_def run_Cons)
qed

lemma emitted_run_snoc:
  "emitted p (run r p (es @ [e])) = emitted p (run r p es) @ emitted (run r p es) (step r (run r p es) e)"
proof -
  obtain xs where x: "effects (run r p es) = effects p @ xs" using run_effects by blast
  obtain ys where y: "effects (step r (run r p es) e) = effects (run r p es) @ ys"
    using step_effects by blast
  show ?thesis using x y by (simp add: emitted_def run_snoc)
qed

text \<open>Once the baseline is set, no step touches the calibration refs.\<close>

lemma step_frozen:
  assumes "baselineEarRef p = Some b"
  shows "baselineEarRef (step r p e) = Some b \<and> calibStartRef (step r p e) = calibStartRef p \<and>
         maxEarRef (step r p e) = maxEarRef p \<and> openSamplesRef (step r p e) = openSamplesRef p \<and>
         Dispatch CALIBRATION_DONE \<notin> set (emitted p (step r p e))"
proof (cases e)
  case (Frame curEar now)
  obtain bpm where b: "effects (updateBpm now (blinkStateMachine b curEar now p)) =
      effects (blinkStateMachine b curEar now p) @ bpm" "set bpm \<subseteq> range (\<lambda>x. Dispatch (SET_BPM x))"
    using updateBpm_effects by blast
  have "Dispatch CALIBRATION_DONE \<notin> set bpm" using b(2) by auto
  then have "Dispatch CALIBRATION_DONE \<notin> set (emitted p (step r p e))"
    using Frame assms b(1) by (simp add: emitted_def onEar_def bsm_effects)
  then show ?thesis
    using Frame assms by (simp add: onEar_def updateBpm_fields updateBpm_calib_fields bsm_calib_fields)
next
  case (Tick now br)
  obtain xs where "effects (monitorTick r br now p) = effects p @ xs" "Dispatch CALIBRATION_DONE \<notin> set xs"
    using tick_effects by blast
  then show ?thesis using Tick assms by (simp add: tick_calib_fields emitted_def)
qed

lemma run_frozen:
  assumes "baselineEarRef p = Some b"
  shows "baselineEarRef (run r p es) = Some b \<and> calibStartRef (run r p es) = calibStartRef p \<and>
         maxEarRef (run r p es) = maxEarRef p \<and> openSamplesRef (run r p es) = openSamplesRef p \<and>
         Dispatch CALIBRATION_DONE \<notin> set (emitted p (run r p es))"
  using assms
proof (induction es arbitrary: p)
  case Nil
  then show ?case by (simp add: run_Nil emitted_self)
next
  case (Cons e es)
  have s: "baselineEarRef (step r p e) = Some b"
    using step_frozen[OF Cons.prems] by simp
  show ?case
    using step_frozen[OF Cons.prems, of r e] Cons.IH[OF s]
    by (simp add: emitted_run_Cons) (simp add: run_Cons)
qed

lemma tick_calibrating: "baselineEarRef p = None \<Longrightarrow> monitorTick r b now p = p"
  by (simp add: monitorTick_def)

lemma Max_cons2: "Max (set (max m x # xs)) = Max (set (m # x # (xs :: real list)))"
proof (cases xs)
  case Nil
  then show ?thesis by (simp add: max.commute)
next
  case (Cons y ys)
  then show ?thesis by (simp add: max.assoc max.left_commute max.commute)
qed

lemma run_calibrating:
  assumes "baselineEarRef p = None"
  shows "run r p (Tick now b # es) = run r p es"
    and "run r p (Frame curEar now # es) = run r (calibrate curEar now p) es"
  using assms by (simp_all add: run_Cons tick_calibrating onEar_def)

lemma calibrate_expiry:
  assumes "baselineEarRef p = None"
  shows "(baselineEarRef (calibrate curEar now p) \<noteq> None) =
           (CALIBRATION_MS \<le> now - (case calibStartRef p of None \<Rightarrow> now | Some c \<Rightarrow> c))"
  using assms by (subst calibrate_baseline) simp

lemma baseline_set_iff_expired:
  assumes "baselineEarRef p = None"
  shows "(baselineEarRef (run r p es) \<noteq> None) = windowExpired (calibStartRef p) es"
  using assms
proof (induction es arbitrary: p)
  case Nil
  then show ?case by (simp add: run_Nil)
next
  case (Cons e es)
  show ?case
  proof (cases e)
    case (Tick now b)
    then show ?thesis using Cons.IH[OF Cons.prems] by (simp add: run_calibrating[OF Cons.prems])
  next
    case (Frame curEar now)
    let ?p1 = "calibrate curEar now p"
    show ?thesis
    proof (cases "baselineEarRef ?p1")
      case None
      then have ne: "\<not> CALIBRATION_MS \<le> now - (case calibStartRef p of None \<Rightarrow> now | Some c \<Rightarrow> c)"
        using calibrate_expiry[OF Cons.prems, of curEar now] by simp
      show ?thesis using Cons.IH[OF None] ne Frame
        by (simp add: run_calibrating[OF Cons.prems] calibrate_calibStart)
    next
      case (Some b)
      then have ex: "CALIBRATION_MS \<le> now - (case calibStartRef p of None \<Rightarrow> now | Some c \<Rightarrow> c)"
        using calibrate_expiry[OF Cons.prems, of curEar now] by simp
      show ?thesis using run_frozen[OF Some, of r es] ex Frame
        by (simp add: run_calibrating[OF Cons.prems])
    qed
  qed
qed

lemma maxEar_run:
  assumes "baselineEarRef p = None"
  shows "maxEarRef (run r p es) = Max (set (maxEarRef p # windowEars (calibStartRef p) es))"
  using assms
proof (induction es arbitrary: p)
  case Nil
  then show ?case by (simp add: run_Nil)
next
  case (Cons e es)
  show ?case
  proof (cases e)
    case (Tick now b)
    then show ?thesis using Cons.IH[OF Cons.prems] by (simp add: run_calibrating[OF Cons.prems])
  next
    case (Frame curEar now)
    let ?p1 = "calibrate curEar now p"
    let ?s = "case calibStartRef p of None \<Rightarrow> now | Some c \<Rightarrow> c"
    show ?thesis
    proof (cases "baselineEarRef ?p1")
      case None
      then have ne: "\<not> CALIBRATION_MS \<le> now - ?s"
        using calibrate_expiry[OF Cons.prems, of curEar now] by simp
      have "maxEarRef (run r ?p1 es) = Max (set (max (maxEarRef p) curEar # windowEars (Some ?s) es))"
        using Cons.IH[OF None] by (simp only: calibrate_calibStart calibrate_maxEar)
      also have "\<dots> = Max (set (maxEarRef p # curEar # windowEars (Some ?s) es))"
        by (rule Max_cons2)
      finally show ?thesis using ne Frame
        by (simp add: run_calibrating[OF Cons.prems])
    next
      case (Some b)
      then have ex: "CALIBRATION_MS \<le> now - ?s"
        using calibrate_expiry[OF Cons.prems, of curEar now] by simp
      show ?thesis using run_frozen[OF Some, of r es] ex Frame
        by (simp add: run_calibrating[OF Cons.prems] calibrate_maxEar max.commute)
    qed
  qed
qed



lemma baselineOk_step: "baselineOk p \<Longrightarrow> baselineOk (step r p e)"
proof (cases "baselineEarRef p")
  case None
  assume "baselineOk p"
  show ?thesis
  proof (cases e)
    case (Tick now b)
    then show ?thesis using None \<open>baselineOk p\<close> by (simp add: tick_calibrating)
  next
    case (Frame curEar now)
    have "baselineOk (calibrate curEar now p)"
      unfolding baselineOk_def using None by (subst calibrate_baseline) simp
    then show ?thesis using Frame None by (simp add: onEar_def)
  qed
next
  case (Some b)
  assume "baselineOk p"
  then show ?thesis using step_frozen[OF Some, of r e] Some by (simp add: baselineOk_def)
qed

lemma baselineOk_run: "baselineOk p \<Longrightarrow> baselineOk (run r p es)"
  by (induction es arbitrary: p) (simp_all add: run_Nil run_Cons baselineOk_step)

lemma beginSession_calib:
  "baselineEarRef (beginSession q) = None" "calibStartRef (beginSession q) = None"
  "maxEarRef (beginSession q) = 0" "openSamplesRef (beginSession q) = []"
  by (simp_all add: beginSession_def resetRefs_def page_defs Let_def)

lemma baselineOk_beginSession: "baselineOk (beginSession q)"
  by (simp add: baselineOk_def beginSession_calib)

lemma window_eval:
  "windowExpired None calibrationFrames" "windowEars None calibrationFrames = [0.30, 0.20, 0.34]"
  "windowExpired None zeroFrames" "windowEars None zeroFrames = [0, 0, 0]"
  by (simp_all add: calibrationFrames_def zeroFrames_def CALIBRATION_MS_def)




subsection \<open>A baseline of 0\<close>

lemma samplesInv_beginSession: "samplesInv (beginSession q)"
  by (simp add: samplesInv_def beginSession_calib)

lemma samplesInv_calibrate:
  assumes "samplesInv p"
  shows "samplesInv (calibrate curEar now p)"
proof (cases "openSamplesRef p = []")
  case True
  then have m: "maxEarRef p = 0" using assms by (simp add: samplesInv_def)
  show ?thesis
    using True
    by (cases "0 < curEar") (simp_all add: samplesInv_def calibrate_maxEar calibrate_openSamples m max_def)
next
  case False
  then have m: "0 < maxEarRef p" using assms by (simp add: samplesInv_def)
  then have "0 < max (maxEarRef p) curEar" by (simp add: less_max_iff_disj)
  then show ?thesis
    using False by (simp add: samplesInv_def calibrate_maxEar calibrate_openSamples)
qed

lemma samplesInv_step: "samplesInv p \<Longrightarrow> samplesInv (step r p e)"
proof (cases "baselineEarRef p")
  case None
  assume i: "samplesInv p"
  show ?thesis
  proof (cases e)
    case (Tick now b)
    then show ?thesis using None i by (simp add: tick_calibrating)
  next
    case (Frame curEar now)
    then show ?thesis using None samplesInv_calibrate[OF i] by (simp add: onEar_def)
  qed
next
  case (Some b)
  assume "samplesInv p"
  then show ?thesis using step_frozen[OF Some, of r e] by (simp add: samplesInv_def)
qed

lemma samplesInv_run: "samplesInv p \<Longrightarrow> samplesInv (run r p es)"
  by (induction es arbitrary: p) (simp_all add: run_Nil run_Cons samplesInv_step)

lemma sum_list_pos: "list_all (\<lambda>x. 0 < x) xs \<Longrightarrow> xs \<noteq> [] \<Longrightarrow> 0 < sum_list (xs :: real list)"
  by (induction xs) (auto simp add: add_pos_nonneg sum_list_pos_nonneg)

lemma Max_zero_iff: "(Max (set (0 # xs)) = 0) = (\<forall>x \<in> set (xs :: real list). x \<le> 0)"
proof -
  have "(Max (set (0 # xs)) = 0) = (0 \<in> set (0 # xs) \<and> (\<forall>x \<in> set (0 # xs). x \<le> 0))"
    by (rule Max_eq_iff) simp_all
  then show ?thesis by simp
qed

lemma quietInv_beginSession: "quietInv (beginSession q)"
  by (simp add: quietInv_def beginSession_def resetRefs_def initialState_def page_defs Let_def)

lemma bsm_ui:
  "calibrating (uiState (blinkStateMachine b curEar now p)) = calibrating (uiState p)"
  "\<not> alertOn (uiState p) \<Longrightarrow> \<not> alertOn (uiState (blinkStateMachine b curEar now p))"
  by (cases "eyeStateRef p"; simp add: page_defs Let_def)+

lemma tick_calibrating_flag:
  "calibrating (uiState (monitorTick r b now p)) = calibrating (uiState p)"
  by (simp add: page_defs Let_def)

lemma tick_zero: "baselineEarRef p = Some 0 \<Longrightarrow> monitorTick r b now p = p"
  by (simp add: monitorTick_def)

lemma quietInv_step: "quietInv p \<Longrightarrow> quietInv (step r p e)"
proof (cases "baselineEarRef p")
  case None
  assume i: "quietInv p"
  show ?thesis
  proof (cases e)
    case (Tick now b)
    then show ?thesis using None i by (simp add: tick_calibrating)
  next
    case (Frame curEar now)
    let ?x = "CALIBRATION_MS \<le> now - (case calibStartRef p of None \<Rightarrow> now | Some c \<Rightarrow> c)"
    show ?thesis
    proof (cases ?x)
      case True
      then show ?thesis using Frame None calibrate_ui(1)[OF True, of curEar]
        by (simp add: quietInv_def onEar_def)
    next
      case False
      have "baselineEarRef (calibrate curEar now p) = None"
        using False None by (subst calibrate_baseline) simp
      then show ?thesis using Frame None i calibrate_ui(2)[OF False, of curEar]
        by (simp add: quietInv_def onEar_def)
    qed
  qed
next
  case (Some b)
  assume i: "quietInv p"
  show ?thesis
  proof (cases e)
    case (Tick now br)
    show ?thesis
    proof (cases "b = 0")
      case True
      then show ?thesis using Tick Some i by (simp add: tick_zero)
    next
      case False
      then show ?thesis using Tick Some i
        by (simp add: quietInv_def tick_calib_fields tick_calibrating_flag)
    qed
  next
    case (Frame curEar now)
    then show ?thesis using Some i
      by (simp add: quietInv_def onEar_def updateBpm_fields bsm_calib_fields bsm_ui)
  qed
qed

lemma quietInv_run: "quietInv p \<Longrightarrow> quietInv (run r p es)"
  by (induction es arbitrary: p) (simp_all add: run_Nil run_Cons quietInv_step)

lemma step_zero_quiet:
  assumes "baselineEarRef p = Some 0"
  shows "list_all (\<lambda>x. \<not> alertEffect x) (emitted p (step r p e))"
proof (cases e)
  case (Tick now b)
  then show ?thesis using assms by (simp add: tick_zero emitted_self)
next
  case (Frame curEar now)
  obtain bpm where b: "effects (updateBpm now (blinkStateMachine 0 curEar now p)) =
      effects (blinkStateMachine 0 curEar now p) @ bpm" "set bpm \<subseteq> range (\<lambda>x. Dispatch (SET_BPM x))"
    using updateBpm_effects by blast
  have "list_all (\<lambda>x. \<not> alertEffect x) bpm"
    using b(2) by (auto simp add: list_all_iff)
  then show ?thesis
    using Frame assms b(1) by (simp add: emitted_def onEar_def bsm_effects)
qed

lemma run_zero_quiet:
  assumes "baselineEarRef p = Some 0"
  shows "list_all (\<lambda>x. \<not> alertEffect x) (emitted p (run r p fs))"
  using assms
proof (induction fs arbitrary: p)
  case Nil
  then show ?case by (simp add: run_Nil emitted_self)
next
  case (Cons e fs)
  have s: "baselineEarRef (step r p e) = Some 0"
    using step_frozen[OF Cons.prems] by simp
  have "list_all (\<lambda>x. \<not> alertEffect x)
          (emitted p (step r p e) @ emitted (step r p e) (run r (step r p e) fs))"
    using Cons.IH[OF s] step_zero_quiet[OF Cons.prems, of r e] by simp
  then show ?case
    by (simp only: emitted_run_Cons)
qed

lemma run_zero_ticks:
  assumes "baselineEarRef p = Some 0"
  shows "run r p fs = run r p (filter isFrame fs)"
  using assms
proof (induction fs arbitrary: p)
  case Nil
  then show ?case by simp
next
  case (Cons e fs)
  show ?case
  proof (cases e)
    case (Frame curEar now)
    have s: "baselineEarRef (step r p e) = Some 0"
      using step_frozen[OF Cons.prems] by simp
    show ?thesis using Cons.IH[OF s] Frame by (simp add: run_Cons)
  next
    case (Tick now b)
    then have "step r p e = p" using Cons.prems by (simp add: tick_zero)
    then show ?thesis using Cons.IH[OF Cons.prems] Tick by (simp add: run_Cons)
  qed
qed

lemma zeroCalibrated_fields:
  "baselineEarRef zeroCalibrated = Some 0" "\<not> calibrating (uiState zeroCalibrated)"
  "lastBlinkAtRef zeroCalibrated = Some 3000" "secondsSinceBlink (uiState zeroCalibrated) = 0"
  "running (uiState zeroCalibrated)"
  by (simp_all add: zeroCalibrated_def zeroFrames_def eval_defs)

text \<open>
  Claim C10. In a session whose calibration window has expired over EAR values that are
  not negative, the baseline is exactly 0 precisely when every EAR of the window was 0,
  which is precisely when no sample was kept (the fallback to the running maximum). From
  then on every tick of the monitor leaves the page as it is (nothing is published by
  it), the run is the same as the run of its frames alone, no alert is raised, no beep and
  no notification happens, and the published calibrating flag is false all the while.
\<close>

theorem zero_baseline_silences_monitor:
  assumes "p = run r (beginSession q) es" "windowExpired None es"
      and "\<forall>x \<in> set (windowEars None es). 0 \<le> x"
  shows "(baselineEarRef p = Some 0) = (\<forall>x \<in> set (windowEars None es). x = 0) \<and>
         (baselineEarRef p = Some 0) = (openSamplesRef p = []) \<and>
         (baselineEarRef p = Some 0 \<longrightarrow>
            monitorTick r b now (run r p fs) = run r p fs \<and>
            run r p fs = run r p (filter isFrame fs) \<and>
            list_all (\<lambda>x. \<not> alertEffect x) (emitted p (run r p fs)) \<and>
            \<not> alertOn (uiState (run r p fs)) \<and>
            \<not> calibrating (uiState (run r p fs)))"
proof -
  let ?W = "windowEars None es"
  note b = beginSession_calib
  have "baselineEarRef p \<noteq> None"
    using baseline_set_iff_expired[OF b(1)[of q], of r es] assms(1,2) by (simp add: b)
  then obtain bl where bl: "baselineEarRef p = Some bl" by auto
  have mx: "maxEarRef p = Max (set (0 # ?W))"
    using maxEar_run[OF b(1)[of q], of r es] assms(1) by (simp add: b)
  have ok: "bl = (if openSamplesRef p = [] then maxEarRef p
                  else sum_list (openSamplesRef p) / real (length (openSamplesRef p)))"
    using baselineOk_run[OF baselineOk_beginSession, of r q es] assms(1) bl
    by (simp add: baselineOk_def)
  have pos: "list_all (\<lambda>x. 0 < x) (openSamplesRef p)"
    using calibInv_run[OF calibInv_beginSession, of r q es] assms(1) by (simp add: calibInv_def)
  have si: "(openSamplesRef p = []) = (maxEarRef p = 0)"
    using samplesInv_run[OF samplesInv_beginSession, of r q es] assms(1) by (simp add: samplesInv_def)
  have z: "(bl = 0) = (openSamplesRef p = [])"
  proof (cases "openSamplesRef p = []")
    case True
    then show ?thesis using ok si by simp
  next
    case False
    have "0 < sum_list (openSamplesRef p) / real (length (openSamplesRef p))"
      using sum_list_pos[OF pos False] False by simp
    then have "0 < bl" using ok False by simp
    then show ?thesis using False by simp
  qed
  have w: "(openSamplesRef p = []) = (\<forall>x \<in> set ?W. x = 0)"
  proof -
    have "(openSamplesRef p = []) = (\<forall>x \<in> set ?W. x \<le> 0)"
      using si mx Max_zero_iff[of ?W] by simp
    also have "\<dots> = (\<forall>x \<in> set ?W. x = 0)"
      using assms(3) by fastforce
    finally show ?thesis .
  qed
  have a1: "(baselineEarRef p = Some 0) = (\<forall>x \<in> set ?W. x = 0)"
    using bl z w by simp
  have a2: "(baselineEarRef p = Some 0) = (openSamplesRef p = [])"
    using bl z by simp
  have a3: "baselineEarRef p = Some 0 \<longrightarrow>
            monitorTick r b now (run r p fs) = run r p fs \<and>
            run r p fs = run r p (filter isFrame fs) \<and>
            list_all (\<lambda>x. \<not> alertEffect x) (emitted p (run r p fs)) \<and>
            \<not> alertOn (uiState (run r p fs)) \<and>
            \<not> calibrating (uiState (run r p fs))"
  proof
    assume z0: "baselineEarRef p = Some 0"
    have f: "baselineEarRef (run r p fs) = Some 0"
      using run_frozen[OF z0, of r fs] by simp
    have "run r p fs = run r (beginSession q) (es @ fs)"
      using assms(1) by (simp add: run_append)
    then have "quietInv (run r p fs)"
      using quietInv_run[OF quietInv_beginSession, of r q "es @ fs"] by simp
    then have q: "\<not> alertOn (uiState (run r p fs))" "\<not> calibrating (uiState (run r p fs))"
      using f by (simp_all add: quietInv_def)
    show "monitorTick r b now (run r p fs) = run r p fs \<and>
            run r p fs = run r p (filter isFrame fs) \<and>
            list_all (\<lambda>x. \<not> alertEffect x) (emitted p (run r p fs)) \<and>
            \<not> alertOn (uiState (run r p fs)) \<and>
            \<not> calibrating (uiState (run r p fs))"
      using tick_zero[OF f] run_zero_quiet[OF z0, of r fs] run_zero_ticks[OF z0, of r fs] q
      by blast
  qed
  show ?thesis using a1 a2 a3 by blast
qed

theorem zero_baseline_silences_monitor_witness:
  "windowExpired None zeroFrames \<and> windowEars None zeroFrames = [0, 0, 0] \<and>
   baselineEarRef zeroCalibrated = Some 0 \<and> openSamplesRef zeroCalibrated = [] \<and>
   monitorTick render5 (browserGranted 1000040000) 40000 (run render5 zeroCalibrated longSilence) =
     run render5 zeroCalibrated longSilence \<and>
   run render5 zeroCalibrated longSilence = run render5 zeroCalibrated (filter isFrame longSilence) \<and>
   list_all (\<lambda>x. \<not> alertEffect x) (emitted zeroCalibrated (run render5 zeroCalibrated longSilence)) \<and>
   \<not> alertOn (uiState (run render5 zeroCalibrated longSilence)) \<and>
   \<not> calibrating (uiState (run render5 zeroCalibrated longSilence))"
proof -
  have nn: "\<forall>x \<in> set (windowEars None zeroFrames). 0 \<le> x"
    by (simp add: window_eval)
  note t = zero_baseline_silences_monitor[OF zeroCalibrated_def window_eval(3) nn,
        of "browserGranted 1000040000" 40000 longSilence]
  show ?thesis
    using t zeroCalibrated_fields(1) window_eval(3,4) by blast
qed

text \<open>
  Claim C4 says that a tick does nothing while the baseline is not established and
  publishes the seconds since the last blink in every other case. The guard of the
  interval, commented \<^verbatim>\<open>calibration not finished yet\<close>, tests the baseline for
  truthiness, so it also stops the tick when calibration has finished with the baseline
  0. In the session below three frames with EAR 0 span the window; calibration is done
  (the calibrating flag is false, the time of the last blink is 3000), and the tick at
  20000, seventeen seconds later, changes nothing and leaves the published seconds at 0.
\<close>

theorem tick_after_zero_baseline:
  "baselineEarRef zeroCalibrated = Some 0 \<and>
   running (uiState zeroCalibrated) \<and> \<not> calibrating (uiState zeroCalibrated) \<and>
   lastBlinkAtRef zeroCalibrated = Some 3000 \<and>
   max 0 ((20000 - 3000) / 1000) = (17 :: real) \<and>
   monitorTick render5 (browserGranted 1000020000) 20000 zeroCalibrated = zeroCalibrated \<and>
   secondsSinceBlink (uiState (monitorTick render5 (browserGranted 1000020000) 20000 zeroCalibrated)) = 0"
  by (simp add: zeroCalibrated_fields tick_zero)

subsection \<open>The monitor and the alert flag\<close>

lemma showAlertNotification_cases:
  "showAlertNotification r b p =
     (if notifFires r b p
      then emit (NewNotification (dateNow b)) (p\<lparr> lastNotifAtRef := dateNow b \<rparr>)
      else p)"
  by (auto simp add: showAlertNotification_def notifFires_def Let_def)

lemma tick_inactive: "\<not> monitorActive p \<Longrightarrow> monitorTick r b now p = p"
  by (auto simp add: monitorActive_def monitorTick_def)

lemma tick_effects_active:
  assumes "monitorActive p"
  shows "effects (monitorTick r b now p) = effects p @
     Dispatch (SET_SECONDS (tickSeconds now p)) #
     (if r_noBlinkThreshold r \<le> tickSeconds now p
      then Dispatch ALERT_ON #
           (if notifFires r b p then [NewNotification (dateNow b)] else []) @
           (if ALERT_REPEAT_MS \<le> now - lastAlertAtRef p then [Beep now] else [])
      else [Dispatch ALERT_OFF])"
  using assms
  by (cases "baselineEarRef p")
     (simp_all add: monitorActive_def monitorTick_def tickSeconds_def showAlertNotification_cases
      notifFires_def dispatch_def emit_def beep_def Let_def)

lemma tick_fields_active:
  assumes "monitorActive p"
  shows "secondsSinceBlink (uiState (monitorTick r b now p)) = tickSeconds now p"
    and "alertOn (uiState (monitorTick r b now p)) = (r_noBlinkThreshold r \<le> tickSeconds now p)"
    and "lastBlinkAtRef (monitorTick r b now p) = lastBlinkAtRef p"
    and "lastNotifAtRef (monitorTick r b now p) =
           (if r_noBlinkThreshold r \<le> tickSeconds now p \<and> notifFires r b p
            then dateNow b else lastNotifAtRef p)"
    and "lastAlertAtRef (monitorTick r b now p) =
           (if r_noBlinkThreshold r \<le> tickSeconds now p \<and> ALERT_REPEAT_MS \<le> now - lastAlertAtRef p
            then now else lastAlertAtRef p)"
  using assms
  by (cases "baselineEarRef p";
      simp add: monitorActive_def monitorTick_def tickSeconds_def showAlertNotification_cases
      notifFires_def dispatch_def emit_def beep_def Let_def)+

lemma tick_publishes:
  assumes "baselineEarRef p = Some baseline" "baseline \<noteq> 0"
  shows "secondsSinceBlink (uiState (monitorTick r b now p)) = tickSeconds now p \<and>
         Dispatch (SET_SECONDS (tickSeconds now p)) \<in> set (emitted p (monitorTick r b now p))"
proof -
  have a: "monitorActive p" using assms by (simp add: monitorActive_def)
  show ?thesis
    using tick_fields_active(1)[OF a] tick_effects_active[OF a, of r b now]
    by (simp add: emitted_def)
qed

lemma alertInv_beginSession: "0 < r_noBlinkThreshold r \<Longrightarrow> alertInv r t (beginSession q)"
  by (simp add: alertInv_def beginSession_def resetRefs_def initialState_def page_defs Let_def)

lemma alertInv_mono:
  assumes "alertInv r t p" "t \<le> t'"
  shows "alertInv r t' p"
proof (cases "lastBlinkAtRef p")
  case None
  then show ?thesis using assms by (auto simp add: alertInv_def split: if_splits)
next
  case (Some l)
  have "(t - l) / 1000 \<le> (t' - l) / 1000" using assms(2) by (simp add: divide_right_mono)
  then show ?thesis using assms(1) Some by (auto simp add: alertInv_def split: if_splits)
qed

lemma alertInv_tick:
  assumes thr: "0 < r_noBlinkThreshold r" and inv: "alertInv r t p" and le: "t \<le> now"
  shows "alertInv r now (monitorTick r b now p)"
proof (cases "monitorActive p")
  case False
  then show ?thesis using alertInv_mono[OF inv le] by (simp add: tick_inactive)
next
  case True
  have bl: "baselineEarRef (monitorTick r b now p) \<noteq> None"
    using True by (simp add: tick_calib_fields monitorActive_def)
  show ?thesis
  proof (cases "r_noBlinkThreshold r \<le> tickSeconds now p")
    case False
    then show ?thesis by (simp add: alertInv_def tick_fields_active[OF True])
  next
    case on: True
    then have pos: "0 < tickSeconds now p" using thr by simp
    then obtain l where l: "lastBlinkAtRef p = Some l"
      by (cases "lastBlinkAtRef p") (simp_all add: tickSeconds_def)
    have "tickSeconds now p = (now - l) / 1000"
      using pos l by (simp add: tickSeconds_def max_def split: if_splits)
    then show ?thesis using on bl l by (simp add: alertInv_def tick_fields_active[OF True])
  qed
qed

lemma bsm_ui_cases:
  "uiState (blinkStateMachine b curEar now p) =
     (if eyeStateRef p = CLOSED \<and> curEar > b * OPEN_RATIO \<and>
         MIN_CLOSED_FRAMES \<le> closedFramesRef p + (if curEar < b * CLOSE_RATIO then 1 else 0) \<and>
         MIN_BLINK_GAP_MS \<le> now - lastBlinkMsRef p
      then (uiState p)\<lparr> blinks := blinkCountRef p + 1, secondsSinceBlink := 0, alertOn := False \<rparr>
      else uiState p)"
  "lastBlinkAtRef (blinkStateMachine b curEar now p) =
     (if eyeStateRef p = CLOSED \<and> curEar > b * OPEN_RATIO \<and>
         MIN_CLOSED_FRAMES \<le> closedFramesRef p + (if curEar < b * CLOSE_RATIO then 1 else 0) \<and>
         MIN_BLINK_GAP_MS \<le> now - lastBlinkMsRef p
      then Some now else lastBlinkAtRef p)"
  by (cases "eyeStateRef p"; cases "curEar < b * CLOSE_RATIO"; simp add: page_defs Let_def)+

lemma alertInv_frame:
  assumes thr: "0 < r_noBlinkThreshold r" and inv: "alertInv r t p" and le: "t \<le> now"
  shows "alertInv r now (onEar curEar now p)"
proof (cases "baselineEarRef p")
  case None
  then have off: "\<not> alertOn (uiState p)" using inv by (auto simp add: alertInv_def split: if_splits)
  let ?x = "CALIBRATION_MS \<le> now - (case calibStartRef p of None \<Rightarrow> now | Some c \<Rightarrow> c)"
  show ?thesis
  proof (cases ?x)
    case True
    then show ?thesis using None thr calibrate_ui(1)[OF True, of curEar]
      by (simp add: alertInv_def onEar_def)
  next
    case False
    then show ?thesis using None off inv calibrate_ui(2)[OF False, of curEar]
      by (simp add: alertInv_def onEar_def)
  qed
next
  case (Some b)
  let ?q = "blinkStateMachine b curEar now p"
  have "alertInv r now ?q"
  proof (cases "uiState ?q = uiState p \<and> lastBlinkAtRef ?q = lastBlinkAtRef p")
    case True
    then show ?thesis using alertInv_mono[OF inv le] Some
      by (simp add: alertInv_def bsm_calib_fields)
  next
    case False
    then have "\<not> alertOn (uiState ?q) \<and> secondsSinceBlink (uiState ?q) = 0"
      by (auto simp add: bsm_ui_cases split: if_splits)
    then show ?thesis using thr by (simp add: alertInv_def)
  qed
  moreover have "uiState (updateBpm now ?q) = (uiState ?q)\<lparr> blinksPerMin := blinksPerMin (uiState (updateBpm now ?q)) \<rparr>"
    by (simp add: page_defs Let_def)
  ultimately show ?thesis using Some
    by (simp add: alertInv_def onEar_def updateBpm_fields)
qed

lemma alertInv_step:
  assumes "0 < r_noBlinkThreshold r" "alertInv r t p" "t \<le> eventTime e"
  shows "alertInv r (eventTime e) (step r p e)"
  using assms by (cases e) (simp_all add: alertInv_frame alertInv_tick)

lemma alertInv_run:
  assumes "0 < r_noBlinkThreshold r" "alertInv r t p" "sorted (t # map eventTime es)"
  shows "alertInv r (last (t # map eventTime es)) (run r p es)"
  using assms(2,3)
proof (induction es arbitrary: t p)
  case Nil
  then show ?case by (simp add: run_Nil)
next
  case (Cons e es)
  have "alertInv r (eventTime e) (step r p e)"
    using alertInv_step[OF assms(1) Cons.prems(1)] Cons.prems(2) by simp
  moreover have "sorted (eventTime e # map eventTime es)"
    using Cons.prems(2) by simp
  ultimately show ?case using Cons.IH[of "eventTime e" "step r p e"]
    by (simp add: run_Cons)
qed

lemma sorted_snoc_start:
  assumes "sorted (xs @ [x :: real])"
  shows "\<exists>t. sorted (t # xs) \<and> last (t # xs) \<le> x"
proof (cases xs)
  case Nil
  then show ?thesis by auto
next
  case (Cons y ys)
  have "sorted (y # y # ys)" using assms Cons by (simp add: sorted_append)
  moreover have "last (y # y # ys) \<le> x" using assms Cons by (auto simp add: sorted_append)
  ultimately show ?thesis using Cons by blast
qed

lemma tick_no_blink: "Dispatch (SET_BLINKS n) \<notin> set (emitted p (monitorTick r b now p))"
proof (cases "monitorActive p")
  case True
  show ?thesis
    by (simp add: emitted_def tick_effects_active[OF True])
next
  case False
  then show ?thesis by (simp add: tick_inactive emitted_self)
qed

lemma alert_cleared_by_blink_only:
  assumes inv: "alertInv r t p" and le: "t \<le> eventTime e" and on: "alertOn (uiState p)"
  shows "(\<not> alertOn (uiState (step r p e))) =
         (\<exists>n. Dispatch (SET_BLINKS n) \<in> set (emitted p (step r p e)))"
proof -
  obtain bl l where bl: "baselineEarRef p = Some bl"
      and l: "lastBlinkAtRef p = Some l" and far: "r_noBlinkThreshold r \<le> (t - l) / 1000"
    using inv on by (auto simp add: alertInv_def split: option.splits)
  show ?thesis
  proof (cases e)
    case (Tick now b)
    have stay: "alertOn (uiState (monitorTick r b now p))"
    proof (cases "monitorActive p")
      case False
      then show ?thesis using on by (simp add: tick_inactive)
    next
      case True
      have "(t - l) / 1000 \<le> (now - l) / 1000"
        using le Tick by (simp add: divide_right_mono)
      then have "r_noBlinkThreshold r \<le> (now - l) / 1000"
        using far by linarith
      then have "r_noBlinkThreshold r \<le> tickSeconds now p"
        using l by (simp add: tickSeconds_def le_max_iff_disj)
      then show ?thesis by (simp add: tick_fields_active[OF True])
    qed
    show ?thesis using Tick stay tick_no_blink by simp
  next
    case (Frame curEar now)
    let ?q = "blinkStateMachine bl curEar now p"
    define c where "c \<longleftrightarrow> eyeStateRef p = CLOSED \<and> curEar > bl * OPEN_RATIO \<and>
         MIN_CLOSED_FRAMES \<le> closedFramesRef p + (if curEar < bl * CLOSE_RATIO then 1 else 0) \<and>
         MIN_BLINK_GAP_MS \<le> now - lastBlinkMsRef p"
    obtain bpm where b: "effects (updateBpm now ?q) = effects ?q @ bpm"
        "set bpm \<subseteq> range (\<lambda>x. Dispatch (SET_BPM x))"
      using updateBpm_effects by blast
    have em: "emitted p (onEar curEar now p) =
        (if c then [Dispatch (SET_BLINKS (blinkCountRef p + 1)), Dispatch (SET_SECONDS 0), Dispatch ALERT_OFF]
         else []) @ bpm"
      using b(1) unfolding c_def by (simp add: emitted_def onEar_def bl bsm_effects)
    have nb: "\<And>n. Dispatch (SET_BLINKS n) \<notin> set bpm"
      using b(2) by auto
    have ev: "(\<exists>n. Dispatch (SET_BLINKS n) \<in> set (emitted p (onEar curEar now p))) = c"
      using nb unfolding em by auto
    have al: "alertOn (uiState (onEar curEar now p)) = (\<not> c)"
      using on unfolding c_def by (simp add: onEar_def bl updateBpm_fields bsm_ui_cases)
    show ?thesis using Frame ev al by simp
  qed
qed

lemmas eval_defs2 = eval_defs browserGranted_def render5_def

lemma aboutToAlert_eval:
  "secondsSinceBlink (uiState aboutToAlert) = 4.9"
  "secondsSinceBlink (uiState (step render5 aboutToAlert (Tick 8000 (browserGranted 1000008000)))) = 5"
  by (simp_all add: aboutToAlert_def quietEvents_def eval_defs2)

lemma alerting_eval:
  "secondsSinceBlink (uiState alerting) = 5"
  "Dispatch (SET_BLINKS 1) \<in> set (emitted alerting (step render5 alerting (Frame 0.28 8099)))"
  by (simp_all add: alerting_def alertEvents_def emitted_def eval_defs2)

text \<open>
  Claim C3. In a session with a positive threshold whose events carry times that do not
  decrease, the alert flag is on exactly when the published seconds since the last blink
  have reached the threshold, before and after every step; so a step raises the flag
  exactly when it takes the published seconds from below the threshold to the threshold
  or above, and a step clears a raised flag exactly when it emits a blink event.
\<close>

theorem alert_flag_transitions:
  assumes thr: "0 < r_noBlinkThreshold r"
      and times: "sorted (map eventTime (es @ [e]))"
      and reach: "p = run r (beginSession q) es"
  shows "alertOn (uiState p) = (r_noBlinkThreshold r \<le> secondsSinceBlink (uiState p)) \<and>
         alertOn (uiState (step r p e)) =
           (r_noBlinkThreshold r \<le> secondsSinceBlink (uiState (step r p e))) \<and>
         (\<not> alertOn (uiState p) \<and> alertOn (uiState (step r p e))) =
           (secondsSinceBlink (uiState p) < r_noBlinkThreshold r \<and>
            r_noBlinkThreshold r \<le> secondsSinceBlink (uiState (step r p e))) \<and>
         (alertOn (uiState p) \<and> \<not> alertOn (uiState (step r p e))) =
           (alertOn (uiState p) \<and>
            (\<exists>n. Dispatch (SET_BLINKS n) \<in> set (emitted p (step r p e))))"
proof -
  obtain t where t: "sorted (t # map eventTime es)" "last (t # map eventTime es) \<le> eventTime e"
    using sorted_snoc_start[of "map eventTime es" "eventTime e"] times by auto
  let ?T = "last (t # map eventTime es)"
  have ip: "alertInv r ?T p"
    using alertInv_run[OF thr alertInv_beginSession[OF thr] t(1)] reach by simp
  have ip': "alertInv r (eventTime e) (step r p e)"
    using alertInv_step[OF thr ip t(2)] .
  have j: "alertOn (uiState p) = (r_noBlinkThreshold r \<le> secondsSinceBlink (uiState p))"
    using ip by (simp add: alertInv_def)
  have j': "alertOn (uiState (step r p e)) =
           (r_noBlinkThreshold r \<le> secondsSinceBlink (uiState (step r p e)))"
    using ip' by (simp add: alertInv_def)
  have up: "(\<not> alertOn (uiState p) \<and> alertOn (uiState (step r p e))) =
           (secondsSinceBlink (uiState p) < r_noBlinkThreshold r \<and>
            r_noBlinkThreshold r \<le> secondsSinceBlink (uiState (step r p e)))"
    using j j' by auto
  have down: "(alertOn (uiState p) \<and> \<not> alertOn (uiState (step r p e))) =
           (alertOn (uiState p) \<and>
            (\<exists>n. Dispatch (SET_BLINKS n) \<in> set (emitted p (step r p e))))"
    using alert_cleared_by_blink_only[OF ip t(2)] by blast
  show ?thesis using j j' up down by blast
qed

theorem alert_flag_transitions_witness:
  "\<not> alertOn (uiState aboutToAlert) \<and>
   alertOn (uiState (step render5 aboutToAlert (Tick 8000 (browserGranted 1000008000)))) \<and>
   secondsSinceBlink (uiState aboutToAlert) < r_noBlinkThreshold render5 \<and>
   r_noBlinkThreshold render5 \<le>
     secondsSinceBlink (uiState (step render5 aboutToAlert (Tick 8000 (browserGranted 1000008000)))) \<and>
   alertOn (uiState alerting) \<and>
   \<not> alertOn (uiState (step render5 alerting (Frame 0.28 8099))) \<and>
   Dispatch (SET_BLINKS 1) \<in> set (emitted alerting (step render5 alerting (Frame 0.28 8099)))"
proof -
  have thr: "0 < r_noBlinkThreshold render5" "r_noBlinkThreshold render5 = 5"
    by (simp_all add: render5_def)
  have s1: "sorted (map eventTime (quietEvents @ [Tick 8000 (browserGranted 1000008000)]))"
    by (simp add: quietEvents_def)
  have s2: "sorted (map eventTime (alertEvents @ [Frame 0.28 8099]))"
    by (simp add: alertEvents_def)
  note t1 = alert_flag_transitions[OF thr(1) s1 aboutToAlert_def]
  note t2 = alert_flag_transitions[OF thr(1) s2 alerting_def]
  have a1: "\<not> alertOn (uiState aboutToAlert)"
    using t1 by (simp add: aboutToAlert_eval thr(2) del: step.simps)
  have a2: "alertOn (uiState (step render5 aboutToAlert (Tick 8000 (browserGranted 1000008000))))"
    using t1 by (simp add: aboutToAlert_eval thr(2) del: step.simps)
  have a3: "alertOn (uiState alerting)"
    using t2 by (simp add: alerting_eval thr(2) del: step.simps)
  have a4: "\<not> alertOn (uiState (step render5 alerting (Frame 0.28 8099)))"
    using t2 a3 alerting_eval(2) by blast
  show ?thesis
    using a1 a2 a3 a4 alerting_eval(2) by (simp add: aboutToAlert_eval thr(2) del: step.simps)
qed

subsection \<open>Cooldowns of the beep and the notification\<close>

lemma chained_append:
  "chained d l (xs @ ys) = (chained d l xs \<and> chained d (last (l # xs)) ys)"
  by (induction xs arbitrary: l) simp_all

lemma chained_spaced:
  assumes "0 \<le> d" "chained d l ts"
  shows "spaced d ts \<and> list_all (\<lambda>u. d \<le> u - l) ts"
  using assms(2)
proof (induction ts arbitrary: l)
  case Nil
  then show ?case by simp
next
  case (Cons t ts)
  have d: "d \<le> t - l" and c: "chained d t ts" using Cons.prems by simp_all
  have ih: "spaced d ts" "list_all (\<lambda>u. d \<le> u - t) ts" using Cons.IH[OF c] by simp_all
  have "list_all (\<lambda>u. d \<le> u - l) ts"
    using ih(2) d assms(1) by (auto simp add: list_all_iff)
  then show ?case using d ih by simp
qed

lemma beepTimes_append: "beepTimes (xs @ ys) = beepTimes xs @ beepTimes ys"
  by (induction xs rule: beepTimes.induct) simp_all

lemma notifTimes_append: "notifTimes (xs @ ys) = notifTimes xs @ notifTimes ys"
  by (induction xs rule: notifTimes.induct) simp_all

lemma bpm_no_times:
  assumes "set bpm \<subseteq> range (\<lambda>x. Dispatch (SET_BPM x))"
  shows "beepTimes bpm = []" "notifTimes bpm = []" "alertFirst bpm"
  using assms by (induction bpm; auto)+

lemma frame_emitted_times:
  "beepTimes (emitted p (onEar curEar now p)) = []"
  "notifTimes (emitted p (onEar curEar now p)) = []"
  "alertFirst (emitted p (onEar curEar now p))"
proof -
  have "beepTimes (emitted p (onEar curEar now p)) = [] \<and>
        notifTimes (emitted p (onEar curEar now p)) = [] \<and>
        alertFirst (emitted p (onEar curEar now p))"
  proof (cases "baselineEarRef p")
    case None
    then show ?thesis by (simp add: onEar_def emitted_def calibrate_effects)
  next
    case (Some b)
    obtain bpm where b: "effects (updateBpm now (blinkStateMachine b curEar now p)) =
        effects (blinkStateMachine b curEar now p) @ bpm" "set bpm \<subseteq> range (\<lambda>x. Dispatch (SET_BPM x))"
      using updateBpm_effects by blast
    show ?thesis
      using Some b(1) bpm_no_times[OF b(2)]
      by (simp add: onEar_def emitted_def bsm_effects beepTimes_append notifTimes_append)
  qed
  then show "beepTimes (emitted p (onEar curEar now p)) = []"
    "notifTimes (emitted p (onEar curEar now p)) = []"
    "alertFirst (emitted p (onEar curEar now p))" by simp_all
qed

lemma frame_cooldown_refs:
  "lastNotifAtRef (onEar curEar now p) = lastNotifAtRef p"
  "lastAlertAtRef (onEar curEar now p) = lastAlertAtRef p"
  by (cases "baselineEarRef p"; cases "eyeStateRef p"; simp add: page_defs Let_def)+

lemma tick_emitted_times:
  "beepTimes (emitted p (monitorTick r b now p)) =
     (if monitorActive p \<and> r_noBlinkThreshold r \<le> tickSeconds now p \<and>
         ALERT_REPEAT_MS \<le> now - lastAlertAtRef p then [now] else [])"
  "notifTimes (emitted p (monitorTick r b now p)) =
     (if monitorActive p \<and> r_noBlinkThreshold r \<le> tickSeconds now p \<and> notifFires r b p
      then [dateNow b] else [])"
  "alertFirst (emitted p (monitorTick r b now p))"
  by (cases "monitorActive p";
      simp add: emitted_def tick_effects_active tick_inactive beepTimes_append notifTimes_append)+

lemma tick_cooldown_refs:
  "lastNotifAtRef (monitorTick r b now p) =
     (if monitorActive p \<and> r_noBlinkThreshold r \<le> tickSeconds now p \<and> notifFires r b p
      then dateNow b else lastNotifAtRef p)"
  "lastAlertAtRef (monitorTick r b now p) =
     (if monitorActive p \<and> r_noBlinkThreshold r \<le> tickSeconds now p \<and>
         ALERT_REPEAT_MS \<le> now - lastAlertAtRef p then now else lastAlertAtRef p)"
  by (cases "monitorActive p"; simp add: tick_fields_active tick_inactive)+

lemma step_chained:
  "chained NOTIF_COOLDOWN_MS (lastNotifAtRef p) (notifTimes (emitted p (step r p e))) \<and>
   lastNotifAtRef (step r p e) = last (lastNotifAtRef p # notifTimes (emitted p (step r p e))) \<and>
   chained ALERT_REPEAT_MS (lastAlertAtRef p) (beepTimes (emitted p (step r p e))) \<and>
   lastAlertAtRef (step r p e) = last (lastAlertAtRef p # beepTimes (emitted p (step r p e)))"
proof (cases e)
  case (Frame curEar now)
  then show ?thesis by (simp add: frame_emitted_times frame_cooldown_refs)
next
  case (Tick now b)
  then show ?thesis
    by (simp add: tick_emitted_times tick_cooldown_refs notifFires_def)
qed

lemma last_last: "last (last (l # xs) # ys) = last (l # xs @ ys)"
  by (cases ys) simp_all

lemma run_chained:
  "chained NOTIF_COOLDOWN_MS (lastNotifAtRef p) (notifTimes (emitted p (run r p es))) \<and>
   lastNotifAtRef (run r p es) = last (lastNotifAtRef p # notifTimes (emitted p (run r p es))) \<and>
   chained ALERT_REPEAT_MS (lastAlertAtRef p) (beepTimes (emitted p (run r p es))) \<and>
   lastAlertAtRef (run r p es) = last (lastAlertAtRef p # beepTimes (emitted p (run r p es)))"
proof (induction es arbitrary: p)
  case Nil
  then show ?case by (simp add: run_Nil emitted_self)
next
  case (Cons e es)
  let ?q = "step r p e"
  let ?na = "notifTimes (emitted p ?q)" and ?nb = "notifTimes (emitted ?q (run r ?q es))"
  let ?ba = "beepTimes (emitted p ?q)" and ?bb = "beepTimes (emitted ?q (run r ?q es))"
  note s = step_chained[of p r e]
  note ih = Cons.IH[of ?q]
  have en: "notifTimes (emitted p (run r p (e # es))) = ?na @ ?nb"
    by (simp only: emitted_run_Cons notifTimes_append)
  have eb: "beepTimes (emitted p (run r p (e # es))) = ?ba @ ?bb"
    by (simp only: emitted_run_Cons beepTimes_append)
  have rr: "run r p (e # es) = run r ?q es"
    by (rule run_Cons)
  have n: "chained NOTIF_COOLDOWN_MS (lastNotifAtRef p) (?na @ ?nb)"
    using s ih by (simp only: chained_append)
  have ln: "lastNotifAtRef (run r ?q es) = last (lastNotifAtRef p # ?na @ ?nb)"
    using s ih by (simp only: last_last[symmetric])
  have b: "chained ALERT_REPEAT_MS (lastAlertAtRef p) (?ba @ ?bb)"
    using s ih by (simp only: chained_append)
  have lb: "lastAlertAtRef (run r ?q es) = last (lastAlertAtRef p # ?ba @ ?bb)"
    using s ih by (simp only: last_last[symmetric])
  note en' = en[unfolded rr] and eb' = eb[unfolded rr]
  show ?case
    unfolding rr en' eb' using n ln b lb by blast
qed

lemma alertFirst_append: "alertFirst xs \<Longrightarrow> alertFirst ys \<Longrightarrow> alertFirst (xs @ ys)"
  by (induction xs rule: alertFirst.induct) auto

lemma run_alertFirst: "alertFirst (emitted p (run r p es))"
proof (induction es arbitrary: p)
  case Nil
  then show ?case by (simp add: run_Nil emitted_self)
next
  case (Cons e es)
  have "alertFirst (emitted p (step r p e))"
    by (cases e) (simp_all add: frame_emitted_times tick_emitted_times)
  then have "alertFirst (emitted p (step r p e) @ emitted (step r p e) (run r (step r p e) es))"
    using Cons.IH by (rule alertFirst_append)
  then show ?case by (simp only: emitted_run_Cons)
qed

lemma cooldown_params:
  "(0::real) \<le> NOTIF_COOLDOWN_MS" "(0::real) \<le> ALERT_REPEAT_MS"
  by (simp_all add: NOTIF_COOLDOWN_MS_def ALERT_REPEAT_MS_def)

lemma tick_independent:
  "monitorActive (p\<lparr> lastNotifAtRef := x \<rparr>) = monitorActive p"
  "monitorActive (p\<lparr> lastAlertAtRef := y \<rparr>) = monitorActive p"
  "tickSeconds now (p\<lparr> lastNotifAtRef := x \<rparr>) = tickSeconds now p"
  "tickSeconds now (p\<lparr> lastAlertAtRef := y \<rparr>) = tickSeconds now p"
  "notifFires r b (p\<lparr> lastAlertAtRef := y \<rparr>) = notifFires r b p"
  by (simp_all add: monitorActive_def tickSeconds_def notifFires_def)

lemma step_fires_alert:
  "beepTimes (emitted p (step r p e)) \<noteq> [] \<or> notifTimes (emitted p (step r p e)) \<noteq> [] \<Longrightarrow>
   alertOn (uiState (step r p e))"
proof (cases e)
  case (Frame curEar now)
  assume "beepTimes (emitted p (step r p e)) \<noteq> [] \<or> notifTimes (emitted p (step r p e)) \<noteq> []"
  then show ?thesis using Frame by (simp add: frame_emitted_times)
next
  case (Tick now b)
  assume a: "beepTimes (emitted p (step r p e)) \<noteq> [] \<or> notifTimes (emitted p (step r p e)) \<noteq> []"
  then have act: "monitorActive p" and th: "r_noBlinkThreshold r \<le> tickSeconds now p"
    using Tick by (auto simp add: tick_emitted_times split: if_splits)
  show ?thesis using Tick th by (simp add: tick_fields_active[OF act])
qed

lemma alertTicks_eval:
  "beepTimes (emitted calibrated (run render5 calibrated alertTicks)) = [8000, 10000, 13000]"
  "notifTimes (emitted calibrated (run render5 calibrated alertTicks)) = [1000008000, 1000013000]"
  "beepTimes (emitted calibrated (step render5 calibrated (Tick 8000 (browserGranted 1000008000)))) = [8000]"
  by (simp_all add: calibrated_def alertTicks_def emitted_def eval_defs2)

text \<open>
  Claim C5. Over any run of frames and ticks from any page, any two notifications are at
  least \<open>NOTIF_COOLDOWN_MS\<close> apart (on the wall clock the notification reads) and at
  least that long after the last one recorded before the run; any two beeps are at least
  \<open>ALERT_REPEAT_MS\<close> apart likewise. The two cooldowns are independent: the beeps of a
  step do not depend on the time of the last notification, nor the notifications on the
  time of the last beep. No beep and no notification precedes the first \<open>ALERT_ON\<close> of
  the run or of a step, and a step that beeps or notifies leaves the alert flag on.
\<close>

theorem cooldowns_respected:
  "spaced NOTIF_COOLDOWN_MS (notifTimes (emitted p (run r p es))) \<and>
   list_all (\<lambda>t. NOTIF_COOLDOWN_MS \<le> t - lastNotifAtRef p) (notifTimes (emitted p (run r p es))) \<and>
   spaced ALERT_REPEAT_MS (beepTimes (emitted p (run r p es))) \<and>
   list_all (\<lambda>t. ALERT_REPEAT_MS \<le> t - lastAlertAtRef p) (beepTimes (emitted p (run r p es))) \<and>
   beepTimes (emitted (p\<lparr> lastNotifAtRef := x \<rparr>) (step r (p\<lparr> lastNotifAtRef := x \<rparr>) e)) =
     beepTimes (emitted p (step r p e)) \<and>
   notifTimes (emitted (p\<lparr> lastAlertAtRef := y \<rparr>) (step r (p\<lparr> lastAlertAtRef := y \<rparr>) e)) =
     notifTimes (emitted p (step r p e)) \<and>
   alertFirst (emitted p (run r p es)) \<and>
   alertFirst (emitted p (step r p e)) \<and>
   (beepTimes (emitted p (step r p e)) \<noteq> [] \<or> notifTimes (emitted p (step r p e)) \<noteq> [] \<longrightarrow>
      alertOn (uiState (step r p e)))"
proof -
  note c = run_chained[of p r es]
  have n: "spaced NOTIF_COOLDOWN_MS (notifTimes (emitted p (run r p es))) \<and>
      list_all (\<lambda>t. NOTIF_COOLDOWN_MS \<le> t - lastNotifAtRef p) (notifTimes (emitted p (run r p es)))"
    using chained_spaced[OF cooldown_params(1)] c by blast
  have b: "spaced ALERT_REPEAT_MS (beepTimes (emitted p (run r p es))) \<and>
      list_all (\<lambda>t. ALERT_REPEAT_MS \<le> t - lastAlertAtRef p) (beepTimes (emitted p (run r p es)))"
    using chained_spaced[OF cooldown_params(2)] c by blast
  have i1: "beepTimes (emitted (p\<lparr> lastNotifAtRef := x \<rparr>) (step r (p\<lparr> lastNotifAtRef := x \<rparr>) e)) =
     beepTimes (emitted p (step r p e))"
    by (cases e) (simp_all add: frame_emitted_times tick_emitted_times tick_independent)
  have i2: "notifTimes (emitted (p\<lparr> lastAlertAtRef := y \<rparr>) (step r (p\<lparr> lastAlertAtRef := y \<rparr>) e)) =
     notifTimes (emitted p (step r p e))"
    by (cases e) (simp_all add: frame_emitted_times tick_emitted_times tick_independent)
  have f: "alertFirst (emitted p (step r p e))"
    by (cases e) (simp_all add: frame_emitted_times tick_emitted_times)
  show ?thesis
    using n b i1 i2 f run_alertFirst[of p r es] step_fires_alert[of p r e] by blast
qed

theorem cooldowns_respected_witness:
  "beepTimes (emitted calibrated (run render5 calibrated alertTicks)) = [8000, 10000, 13000] \<and>
   spaced ALERT_REPEAT_MS [8000, 10000, 13000] \<and>
   notifTimes (emitted calibrated (run render5 calibrated alertTicks)) = [1000008000, 1000013000] \<and>
   spaced NOTIF_COOLDOWN_MS [1000008000, 1000013000] \<and>
   beepTimes (emitted calibrated (step render5 calibrated (Tick 8000 (browserGranted 1000008000)))) = [8000] \<and>
   alertOn (uiState (step render5 calibrated (Tick 8000 (browserGranted 1000008000))))"
  using cooldowns_respected[of calibrated render5 alertTicks 0 "Tick 8000 (browserGranted 1000008000)" 0]
  by (simp add: alertTicks_eval del: step.simps spaced.simps)

subsection \<open>A failing start\<close>

lemma fold_trackStop:
  "fold (\<lambda>t. emit (TrackStop t)) ts p = p\<lparr> effects := effects p @ map TrackStop ts \<rparr>"
  by (induction ts arbitrary: p) (simp_all add: emit_def)

lemma cleanup_cases:
  "cleanupLoopsAndStream p =
     p\<lparr> rafRef := None, timerRef := None, streamRef := None, effects := effects p @ teardown p \<rparr>"
  by (cases "rafRef p"; cases "timerRef p"; cases "streamRef p";
      simp add: cleanupLoopsAndStream_def teardown_def fold_trackStop emit_def Let_def)

lemma beginSession_fields:
  "rafRef (beginSession p) = rafRef p" "timerRef (beginSession p) = timerRef p"
  "streamRef (beginSession p) = streamRef p" "scriptTag (beginSession p) = scriptTag p"
  "effects (beginSession p) = effects p @ [Dispatch CLEAR_ERROR, Dispatch START]"
  by (simp_all add: beginSession_def resetRefs_def dispatch_def emit_def Let_def)

lemma beginSession_ui:
  "running (uiState (beginSession p))" "calibrating (uiState (beginSession p))"
  "error (uiState (beginSession p)) = None"
  "agreed (uiState (beginSession p)) = agreed (uiState p)"
  by (simp_all add: beginSession_def resetRefs_def dispatch_def emit_def initialState_def Let_def)

text \<open>The three things the load of the script can do, by the state of the document.\<close>

lemma loadScriptOnce_cases:
  "loadScriptOnce src fetched TagLoaded = (TagLoaded, Fulfilled)"
  "loadScriptOnce src fetched TagFailed = (TagFailed, Unsettled)"
  "loadScriptOnce src True NoTag = (TagLoaded, Fulfilled)"
  "loadScriptOnce src True TagLoading = (TagLoaded, Fulfilled)"
  "loadScriptOnce src False NoTag = (TagFailed, Rejected (''Failed to load '' @ src))"
  "loadScriptOnce src False TagLoading = (TagFailed, Rejected (''Failed to load '' @ src))"
  by (simp_all add: loadScriptOnce_def)

lemma loadScriptOnce_unsettled:
  "snd (loadScriptOnce src fetched tag) = Unsettled \<longleftrightarrow> tag = TagFailed"
  by (cases tag; cases fetched) (simp_all add: loadScriptOnce_cases)

text \<open>A throw of the setup leaves the handles, the log and the published state alone.\<close>

lemma trySetup_Threw:
  assumes "trySetup env p = Threw m q"
  shows "rafRef q = rafRef p" "timerRef q = timerRef p" "effects q = effects p"
        "uiState q = uiState p"
        "streamRef q = streamRef p \<or> (\<exists>s. getUserMedia env = Resolves s \<and> streamRef q = Some s)"
  using assms
  by (auto simp add: trySetup_def Let_def split: if_splits Outcome.splits prod.splits Settlement.splits)

text \<open>
  The setup is suspended exactly when the document holds a script element that has
  failed; in every other document it throws whenever a step fails.
\<close>

lemma trySetup_Suspended:
  "(\<exists>q. trySetup env p = Suspended q) \<longleftrightarrow> scriptTag p = TagFailed"
proof -
  obtain tag r where l: "loadScriptOnce FACE_MESH_SRC (scriptFetch env) (scriptTag p) = (tag, r)"
    by (cases "loadScriptOnce FACE_MESH_SRC (scriptFetch env) (scriptTag p)")
  have "(\<exists>q. trySetup env p = Suspended q) \<longleftrightarrow> r = Unsettled"
    by (cases r) (auto simp add: trySetup_def l Let_def split: Outcome.splits)
  then show ?thesis
    using loadScriptOnce_unsettled[of FACE_MESH_SRC "scriptFetch env" "scriptTag p"] l by simp
qed

lemma trySetup_throws:
  assumes "scriptTag p \<noteq> TagFailed"
  shows
  "\<not> scriptFetch env \<Longrightarrow> scriptTag p \<noteq> TagLoaded \<Longrightarrow>
     trySetup env p = Threw (Some (''Failed to load '' @ FACE_MESH_SRC)) (p\<lparr> scriptTag := TagFailed \<rparr>)"
  "scriptFetch env \<or> scriptTag p = TagLoaded \<Longrightarrow> getUserMedia env = Throws x \<Longrightarrow>
     trySetup env p = Threw x (p\<lparr> scriptTag := TagLoaded \<rparr>)"
  "scriptFetch env \<or> scriptTag p = TagLoaded \<Longrightarrow> getUserMedia env = Resolves s \<Longrightarrow>
     \<not> videoReady env \<or> \<not> canvasReady env \<Longrightarrow>
     trySetup env p =
       Threw (Some ''Video/canvas not ready.'') (p\<lparr> scriptTag := TagLoaded, streamRef := Some s \<rparr>)"
  "scriptFetch env \<or> scriptTag p = TagLoaded \<Longrightarrow> getUserMedia env = Resolves s \<Longrightarrow>
     videoReady env \<Longrightarrow> canvasReady env \<Longrightarrow> videoPlay env = Resolves u \<Longrightarrow>
     canvasContext env \<Longrightarrow> \<not> faceMeshPresent env \<Longrightarrow>
     trySetup env p =
       Threw (Some ''FaceMesh failed to load (window.FaceMesh missing).'')
         (p\<lparr> scriptTag := TagLoaded, streamRef := Some s \<rparr>)"
  using assms
  by (cases "scriptTag p"; cases "scriptFetch env"; simp add: trySetup_def loadScriptOnce_cases Let_def)+

text \<open>
  When the setup throws, \<open>start\<close> aborts: whatever the handles and the stream were at the
  throw, the loop and the interval are cancelled when their handle is set, every track
  of the stream is stopped, the three refs are \<^verbatim>\<open>null\<close> afterwards, the thrown
  message, or \<open>Failed to start.\<close> when there is none, is published as the error, and
  \<open>running\<close> is false.
\<close>

lemma start_aborts_on_throw:
  assumes ag: "agreed (uiState p)" and t: "trySetup env (beginSession p) = Threw m q"
  shows "error (uiState (start env p)) =
           Some (case m of Some message \<Rightarrow> message | None \<Rightarrow> ''Failed to start.'')"
    and "emitted p (start env p) =
           [Dispatch CLEAR_ERROR, Dispatch START] @ teardown q @
           [Dispatch (ERROR (case m of Some message \<Rightarrow> message | None \<Rightarrow> ''Failed to start.''))]"
    and "\<not> running (uiState (start env p))"
    and "\<not> calibrating (uiState (start env p))"
    and "\<not> alertOn (uiState (start env p))"
    and "rafRef (start env p) = None" "timerRef (start env p) = None"
        "streamRef (start env p) = None"
    and "scriptTag (start env p) = scriptTag q"
proof -
  note f = trySetup_Threw[OF t]
  let ?msg = "case m of Some message \<Rightarrow> message | None \<Rightarrow> ''Failed to start.''"
  have st: "start env p = dispatch (ERROR ?msg) (cleanupLoopsAndStream q)"
    using ag t by (simp add: start_def)
  have e: "effects (start env p) =
             effects p @ [Dispatch CLEAR_ERROR, Dispatch START] @ teardown q @ [Dispatch (ERROR ?msg)]"
    by (simp add: st cleanup_cases dispatch_def emit_def f(3) beginSession_fields)
  show "emitted p (start env p) =
          [Dispatch CLEAR_ERROR, Dispatch START] @ teardown q @ [Dispatch (ERROR ?msg)]"
    by (simp add: emitted_def e)
  show "error (uiState (start env p)) = Some ?msg" "\<not> running (uiState (start env p))"
    "\<not> calibrating (uiState (start env p))" "\<not> alertOn (uiState (start env p))"
    "rafRef (start env p) = None" "timerRef (start env p) = None" "streamRef (start env p) = None"
    "scriptTag (start env p) = scriptTag q"
    by (simp_all add: st cleanup_cases dispatch_def emit_def)
qed

lemma agreedPage_fields:
  "agreed (uiState agreedPage)" "streamRef agreedPage = None" "rafRef agreedPage = None"
  "timerRef agreedPage = None" "scriptTag agreedPage = NoTag"
  by (simp_all add: agreedPage_def initialPage_def initialState_def dispatch_def emit_def)

text \<open>A denied camera, and a missing canvas after the camera gave its stream.\<close>

lemma start_aborts_examples:
  "error (uiState (start cameraDenied agreedPage)) = Some ''Permission denied''"
  "\<not> running (uiState (start cameraDenied agreedPage))"
  "emitted agreedPage (start cameraDenied agreedPage) =
     [Dispatch CLEAR_ERROR, Dispatch START, Dispatch (ERROR ''Permission denied'')]"
  "error (uiState (start noCanvas agreedPage)) = Some ''Video/canvas not ready.''"
  "\<not> running (uiState (start noCanvas agreedPage))"
  "streamRef (start noCanvas agreedPage) = None"
  "emitted agreedPage (start noCanvas agreedPage) =
     [Dispatch CLEAR_ERROR, Dispatch START, TrackStop 7, Dispatch (ERROR ''Video/canvas not ready.'')]"
proof -
  have b: "scriptTag (beginSession agreedPage) \<noteq> TagFailed"
    by (simp add: beginSession_fields agreedPage_fields)
  have d: "trySetup cameraDenied (beginSession agreedPage) =
             Threw (Some ''Permission denied'') ((beginSession agreedPage)\<lparr> scriptTag := TagLoaded \<rparr>)"
    by (rule trySetup_throws(2)[OF b]) (simp_all add: cameraDenied_def online_def)
  have c: "trySetup noCanvas (beginSession agreedPage) =
             Threw (Some ''Video/canvas not ready.'')
               ((beginSession agreedPage)\<lparr> scriptTag := TagLoaded, streamRef := Some [7] \<rparr>)"
    by (rule trySetup_throws(3)[OF b]) (simp_all add: noCanvas_def online_def)
  have dt: "teardown ((beginSession agreedPage)\<lparr> scriptTag := TagLoaded \<rparr>) = []"
    by (simp add: teardown_def beginSession_fields agreedPage_fields)
  have ct: "teardown ((beginSession agreedPage)\<lparr> scriptTag := TagLoaded, streamRef := Some [7] \<rparr>) =
              [TrackStop 7]"
    by (simp add: teardown_def beginSession_fields agreedPage_fields)
  note sd = start_aborts_on_throw[OF agreedPage_fields(1) d]
  note sc = start_aborts_on_throw[OF agreedPage_fields(1) c]
  show "error (uiState (start cameraDenied agreedPage)) = Some ''Permission denied''"
    using sd(1) by simp
  show "\<not> running (uiState (start cameraDenied agreedPage))" by (rule sd(3))
  show "emitted agreedPage (start cameraDenied agreedPage) =
     [Dispatch CLEAR_ERROR, Dispatch START, Dispatch (ERROR ''Permission denied'')]"
    using sd(2) by (simp add: dt)
  show "error (uiState (start noCanvas agreedPage)) = Some ''Video/canvas not ready.''"
    using sc(1) by simp
  show "\<not> running (uiState (start noCanvas agreedPage))" by (rule sc(3))
  show "streamRef (start noCanvas agreedPage) = None" by (rule sc(8))
  show "emitted agreedPage (start noCanvas agreedPage) =
     [Dispatch CLEAR_ERROR, Dispatch START, TrackStop 7, Dispatch (ERROR ''Video/canvas not ready.'')]"
    using sc(2) by (simp add: ct)
qed

text \<open>
  A start that meets a failed script element is suspended for ever, whatever the
  browser does now: it runs neither the rest of the setup nor the \<^verbatim>\<open>catch\<close>.
\<close>

lemma start_suspended:
  assumes ag: "agreed (uiState p)" and tag: "scriptTag p = TagFailed"
  shows "start env p = beginSession p"
proof -
  have "loadScriptOnce FACE_MESH_SRC (scriptFetch env) (scriptTag (beginSession p)) =
          (TagFailed, Unsettled)"
    by (simp add: beginSession_fields tag loadScriptOnce_cases)
  moreover have "(beginSession p)\<lparr> scriptTag := TagFailed \<rparr> = beginSession p"
    using beginSession_fields(4)[of p] tag by (cases "beginSession p") simp
  ultimately have "trySetup env (beginSession p) = Suspended (beginSession p)"
    by (simp add: trySetup_def)
  then show ?thesis using ag by (simp add: start_def)
qed

lemma first_start_offline:
  "error (uiState (start offline agreedPage)) = Some (''Failed to load '' @ FACE_MESH_SRC)"
  "\<not> running (uiState (start offline agreedPage))"
  "scriptTag (start offline agreedPage) = TagFailed"
  "agreed (uiState (start offline agreedPage))"
  "emitted agreedPage (start offline agreedPage) =
     [Dispatch CLEAR_ERROR, Dispatch START, Dispatch (ERROR (''Failed to load '' @ FACE_MESH_SRC))]"
  "rafRef (start offline agreedPage) = None" "timerRef (start offline agreedPage) = None"
  "streamRef (start offline agreedPage) = None"
proof -
  have b: "scriptTag (beginSession agreedPage) \<noteq> TagFailed"
    by (simp add: beginSession_fields agreedPage_fields)
  have t: "trySetup offline (beginSession agreedPage) =
             Threw (Some (''Failed to load '' @ FACE_MESH_SRC))
               ((beginSession agreedPage)\<lparr> scriptTag := TagFailed \<rparr>)"
    by (rule trySetup_throws(1)[OF b])
       (simp_all add: offline_def online_def beginSession_fields agreedPage_fields)
  note s = start_aborts_on_throw[OF agreedPage_fields(1) t]
  have dt: "teardown ((beginSession agreedPage)\<lparr> scriptTag := TagFailed \<rparr>) = []"
    by (simp add: teardown_def beginSession_fields agreedPage_fields)
  show "error (uiState (start offline agreedPage)) = Some (''Failed to load '' @ FACE_MESH_SRC)"
    using s(1) by simp
  show "\<not> running (uiState (start offline agreedPage))" by (rule s(3))
  show "scriptTag (start offline agreedPage) = TagFailed" using s(9) by simp
  show "agreed (uiState (start offline agreedPage))"
    using agreedPage_fields(1) t
    by (simp add: start_def dispatch_def emit_def cleanup_cases beginSession_ui)
  show "emitted agreedPage (start offline agreedPage) =
     [Dispatch CLEAR_ERROR, Dispatch START, Dispatch (ERROR (''Failed to load '' @ FACE_MESH_SRC))]"
    using s(2) by (simp add: dt)
  show "rafRef (start offline agreedPage) = None" "timerRef (start offline agreedPage) = None"
    "streamRef (start offline agreedPage) = None"
    by (rule s(6) s(7) s(8))+
qed

text \<open>
  Claim C9 fails for a script load that has failed before. On a page on which the user
  has agreed and whose document does not hold the script, a first \<open>start\<close> without
  network aborts as claimed: the error \<open>Failed to load ...\<close> is published and \<open>running\<close>
  is false. It leaves the failed script element in the document. A second \<open>start\<close>,
  still without network, finds that element without the \<^verbatim>\<open>_loaded\<close> flag and waits for
  events that have already fired: it clears the error, dispatches \<^verbatim>\<open>START\<close> and does
  nothing more, so that \<open>running\<close> and \<open>calibrating\<close> stay true, no error is published,
  and neither the frame loop nor the monitor interval exists.
\<close>

theorem start_after_failed_load:
  "agreed (uiState agreedPage) \<and> scriptTag agreedPage = NoTag \<and>
   error (uiState (start offline agreedPage)) = Some (''Failed to load '' @ FACE_MESH_SRC) \<and>
   \<not> running (uiState (start offline agreedPage)) \<and>
   scriptTag (start offline agreedPage) = TagFailed \<and>
   running (uiState (start offline (start offline agreedPage))) \<and>
   calibrating (uiState (start offline (start offline agreedPage))) \<and>
   error (uiState (start offline (start offline agreedPage))) = None \<and>
   emitted (start offline agreedPage) (start offline (start offline agreedPage)) =
     [Dispatch CLEAR_ERROR, Dispatch START] \<and>
   rafRef (start offline (start offline agreedPage)) = None \<and>
   timerRef (start offline (start offline agreedPage)) = None"
proof -
  have s: "start offline (start offline agreedPage) = beginSession (start offline agreedPage)"
    by (rule start_suspended[OF first_start_offline(4) first_start_offline(3)])
  show ?thesis
    unfolding s
    by (simp add: agreedPage_fields first_start_offline beginSession_ui emitted_def
        beginSession_fields)
qed

text \<open>The same happens when the network is back for the second \<open>start\<close>.\<close>

lemma start_online_after_failed_load:
  "running (uiState (start online (start offline agreedPage)))"
  "error (uiState (start online (start offline agreedPage))) = None"
  "rafRef (start online (start offline agreedPage)) = None"
  "timerRef (start online (start offline agreedPage)) = None"
proof -
  have s: "start online (start offline agreedPage) = beginSession (start offline agreedPage)"
    by (rule start_suspended[OF first_start_offline(4) first_start_offline(3)])
  note r = first_start_offline(6,7)
  show "running (uiState (start online (start offline agreedPage)))"
    "error (uiState (start online (start offline agreedPage))) = None"
    "rafRef (start online (start offline agreedPage)) = None"
    "timerRef (start online (start offline agreedPage)) = None"
    unfolding s by (simp_all add: beginSession_ui beginSession_fields r)
qed

end
